theory Spec2Isabelle
  imports
    Main
    "HOL-Library.AList"
    "HOL-Library.Char_ord"
    "HOL-Library.List_Lexorder"
    "HOL-Library.Product_Lexorder"
    "HOL-Library.Multiset"
begin

section \<open>Text helpers of the post directive\<close>

text \<open>
  Strings are lists of characters, and a character is a code point below 256: the
  strings of the model are the Python strings over the first 256 code points, one
  character per code point, ordered as Python orders them. The built-in string methods
  the source calls (\<^verbatim>\<open>split\<close>, \<^verbatim>\<open>rsplit\<close>, \<^verbatim>\<open>strip\<close>, \<^verbatim>\<open>lower\<close>) are written out on
  these code points as Python defines them. \<^verbatim>\<open>str.isspace\<close> holds of the codes 9 to 13,
  28 to 32, 133 (next line) and 160 (no-break space), which are the characters that
  \<^verbatim>\<open>strip\<close> removes. \<^verbatim>\<open>str.lower\<close> adds 32 to the codes 65 to 90 (\<^verbatim>\<open>A..Z\<close>), 192 to 214
  and 216 to 222 (the accented capitals; 215 is the multiplication sign) and leaves
  every other code as it is.
\<close>

definition isspace :: "char \<Rightarrow> bool" where
  "isspace c =
     (let n = (of_char c :: nat)
      in (9 \<le> n \<and> n \<le> 13) \<or> (28 \<le> n \<and> n \<le> 32) \<or> n = 133 \<or> n = 160)"

definition strip :: "string \<Rightarrow> string" where
  "strip s = rev (dropWhile isspace (rev (dropWhile isspace s)))"

definition lower_char :: "char \<Rightarrow> char" where
  "lower_char c =
     (let n = (of_char c :: nat)
      in if (65 \<le> n \<and> n \<le> 90) \<or> (192 \<le> n \<and> n \<le> 214) \<or> (216 \<le> n \<and> n \<le> 222)
         then char_of (n + 32) else c)"

definition lower :: "string \<Rightarrow> string" where
  "lower s = map lower_char s"

text \<open>\<^verbatim>\<open>s.split(c)\<close> for a one-character separator: never empty, one field more than separators.\<close>

fun split :: "char \<Rightarrow> string \<Rightarrow> string list" where
  "split c [] = [[]]"
| "split c (x # xs) =
     (if x = c then [] # split c xs
      else (x # hd (split c xs)) # tl (split c xs))"

text \<open>
  \<^verbatim>\<open>s.rsplit(c, 1)\<close> for a one-character separator: the text before the last separator and
  the text after it, or the whole text alone when there is no separator.
\<close>

definition rsplit1 :: "char \<Rightarrow> string \<Rightarrow> string list" where
  "rsplit1 c s =
     (if c \<in> set s
      then [rev (tl (dropWhile (\<lambda>x. x \<noteq> c) (rev s))), rev (takeWhile (\<lambda>x. x \<noteq> c) (rev s))]
      else [s])"

text \<open>
  \<^verbatim>\<open>
  def shorten_text(text, length=50, suffix='...'):
      if len(text) <= length:
          return text
      return text[:length].rsplit(' ', 1)[0] + suffix
  \<close>
  \<^verbatim>\<open>rsplit\<close> never returns an empty list, so the index 0 is always there.
\<close>

definition shorten_text :: "string \<Rightarrow> nat \<Rightarrow> string \<Rightarrow> string" where
  "shorten_text text len suffix =
     (if length text \<le> len then text
      else hd (rsplit1 (CHR '' '') (take len text)) @ suffix)"

text \<open>
  \<^verbatim>\<open>
  def cvs_to_list(argument):
      if argument is None:
          return []
      value = [i.strip().lower() for i in argument.split(',')]
      return value

  def stripped(argument):
      if argument is None:
          return ''
      return argument.strip()
  \<close>
\<close>

definition cvs_to_list :: "string option \<Rightarrow> string list" where
  "cvs_to_list argument =
     (case argument of
        None \<Rightarrow> []
      | Some a \<Rightarrow> map (\<lambda>i. lower (strip i)) (split (CHR '','') a))"

definition stripped :: "string option \<Rightarrow> string" where
  "stripped argument = (case argument of None \<Rightarrow> [] | Some a \<Rightarrow> strip a)"

text \<open>Joining fields with a separator, the inverse of \<^const>\<open>split\<close>.\<close>

fun join :: "char \<Rightarrow> string list \<Rightarrow> string" where
  "join c [] = []"
| "join c [f] = f"
| "join c (f # g # fs) = f @ c # join c (g # fs)"

text \<open>A tag string with characters above 127: a no-break space, \<^verbatim>\<open>A\<close> with diaeresis
  (code 196), \<^verbatim>\<open>b\<close>, a next-line character, a comma and \<^verbatim>\<open>Z\<close>.\<close>

definition tags_latin1 :: string where
  "tags_latin1 = [char_of (160::nat), char_of (196::nat), CHR ''b'', char_of (133::nat),
                  CHR '','', CHR ''Z'']"

definition text51 :: string where
  "text51 = ''aaaaaaaaa aaaaaaaaa aaaaaaaaa aaaaaaaaa aaaaaaaaa b''"

section \<open>Data model\<close>

text \<open>
  A parsed time is a naive \<^verbatim>\<open>datetime\<close>: year, month, day, hour, minute, second, compared
  lexicographically, as Python compares them.
\<close>

type_synonym datetime = "int \<times> int \<times> int \<times> int \<times> int \<times> int"

definition dt_year :: "datetime \<Rightarrow> int" where
  "dt_year t = fst t"

datatype error = ValueError string | KeyError string | AttributeError string

text \<open>Decimal rendering of a serial number, the \<^verbatim>\<open>%d\<close> of the identifier formats.\<close>

fun show_nat :: "nat \<Rightarrow> string" where
  "show_nat n =
     (if n < 10 then [char_of (48 + n)]
      else show_nat (n div 10) @ [char_of (48 + n mod 10)])"

declare show_nat.simps [simp del]

text \<open>
  \<^verbatim>\<open>nodes.target('', '', ids=[targetid])\<close>: the target is created with its ids only; the
  \<^verbatim>\<open>refid\<close> attribute that \<^verbatim>\<open>make_references\<close> reads is absent until the host has
  resolved the targets of the document.
\<close>

record target =
  ids :: "string list"
  refid :: "string option"

record reference =
  ref_text :: string
  refuri :: string

text \<open>The attributes of a \<^verbatim>\<open>BlogNode\<close>, as \<^verbatim>\<open>BlogPostDirective.run\<close> and
  \<^verbatim>\<open>add_next_prev\<close> set them.\<close>

record BlogNode =
  author :: string
  author_email :: string
  tags :: "string list"
  title :: string
  category :: string
  location_city :: string
  location_country :: string
  node_time :: datetime
  summary :: string
  summary_image :: string
  short_time :: string
  category_ref :: "string option"
  node_docname :: "string option"
  tags_ref :: "string option list"
  tags_and_ref :: "(string option \<times> string option) list"
  year :: int
  dirname :: "string option"
  node_targetid :: "string option"
  prev_text :: "string option"
  next_text :: "string option"
  node_next :: "string option"
  node_prev :: "string option"

text \<open>One entry of \<^verbatim>\<open>env.all_posts\<close>.\<close>

record post_info =
  post_time :: datetime
  post_node :: BlogNode
  post_docname :: string
  post_datetime :: datetime
  post_targetid :: string
  targetnode :: target

text \<open>The dicts stored per group key, and the ones of the flattened list, which also
  carry the document name.\<close>

record item =
  item_time :: datetime
  refnode :: reference
  item_post_node :: BlogNode

record flat_item =
  flat_time :: datetime
  flat_refnode :: reference
  flat_post_node :: BlogNode
  flat_docname :: string

text \<open>A \<^verbatim>\<open>RecentNode\<close> as its directive creates it; \<^verbatim>\<open>items\<close>, the empty list then, is
  filled in at rendering and left out here.\<close>

record RecentNode =
  recent_length :: nat
  recent_nmax :: nat

datatype out_node =
    Substitution string
  | Target target
  | Blog BlogNode
  | Category
  | Tag
  | Archive
  | Recent RecentNode

text \<open>
  The build environment, as far as this extension uses it. An attribute the code tests
  with \<^verbatim>\<open>hasattr\<close> is an option, \<open>None\<close> while it is not set. \<open>serialno\<close> holds the
  counters behind \<^verbatim>\<open>env.new_serialno(kind)\<close>, one per kind; \<open>images\<close> records the
  files handed to \<^verbatim>\<open>env.images.add_file\<close>.
\<close>

record env =
  env_docname :: string
  serialno :: "string \<Rightarrow> nat"
  images :: "string list"
  all_posts :: "post_info list option"
  category_id :: "(string \<times> string) list option"
  tag_id :: "(string \<times> string) list option"
  archive_id :: "(int \<times> string) list option"
  category_docname :: "string option"
  tag_docname :: "string option"
  archive_docname :: "string option"
  recent_docname :: "string option"
  recent_nodes :: "RecentNode list option"

text \<open>\<^verbatim>\<open>env.new_serialno(kind)\<close> of the host: returns the counter of the kind and
  increments it.\<close>

definition new_serialno :: "string \<Rightarrow> env \<Rightarrow> nat \<times> env" where
  "new_serialno kind e =
     (serialno e kind, e\<lparr>serialno := (serialno e)(kind := Suc (serialno e kind))\<rparr>)"

section \<open>Aggregation\<close>

text \<open>
  \<^verbatim>\<open>sorted(items, key=..., reverse=...)\<close>: Python's sort is stable, and with
  \<^verbatim>\<open>reverse=True\<close> it keeps equal elements in their original order too, by reversing
  the list before and after a stable ascending sort.
\<close>

definition sorted_py :: "('a \<Rightarrow> 'k::linorder) \<Rightarrow> bool \<Rightarrow> 'a list \<Rightarrow> 'a list" where
  "sorted_py key reverse xs =
     (if reverse then rev (sort_key key (rev xs)) else sort_key key xs)"

text \<open>
  A dict is an association list in insertion order. The two statements
  \<^verbatim>\<open>if k not in d: d[k] = []\<close> and \<^verbatim>\<open>d[k].append(v)\<close>:
\<close>

definition group_append :: "'k \<Rightarrow> 'v \<Rightarrow> ('k \<times> 'v list) list \<Rightarrow> ('k \<times> 'v list) list" where
  "group_append k v d =
     (case map_of d k of
        None \<Rightarrow> AList.update k [v] d
      | Some vs \<Rightarrow> AList.update k (vs @ [v]) d)"

text \<open>
  \<^verbatim>\<open>
  def make_references(app, fromdocname):
      env = app.builder.env
      references = []
      for post_info in env.all_posts:
          post_node = post_info['post_node']
          newnode = nodes.reference(post_node['title'], post_node['title'])
          newnode['refuri'] = app.builder.get_relative_uri(
              fromdocname, post_info['docname'])
          newnode['refuri'] += '#' + post_info['targetnode']['refid']
          references.append(newnode)
      return references
  \<close>
  \<open>get_relative_uri\<close> is the host builder's function, a parameter here. Its first argument
  is optional because \<^verbatim>\<open>add_next_prev\<close> passes the \<^verbatim>\<open>docname\<close> attribute of a node,
  which is \<^verbatim>\<open>None\<close> for a node parsed outside a build.
\<close>

type_synonym relative_uri = "string option \<Rightarrow> string \<Rightarrow> string"

fun references_of :: "relative_uri \<Rightarrow> string \<Rightarrow> post_info list \<Rightarrow> error + reference list" where
  "references_of get_relative_uri fromdocname [] = Inr []"
| "references_of get_relative_uri fromdocname (post_info # posts) =
     (case refid (targetnode post_info) of
        None \<Rightarrow> Inl (KeyError ''refid'')
      | Some r \<Rightarrow>
          (case references_of get_relative_uri fromdocname posts of
             Inl err \<Rightarrow> Inl err
           | Inr references \<Rightarrow>
               Inr (\<lparr>ref_text = title (post_node post_info),
                     refuri = get_relative_uri (Some fromdocname) (post_docname post_info)
                              @ ''#'' @ r\<rparr> # references)))"

definition make_references :: "relative_uri \<Rightarrow> string \<Rightarrow> env \<Rightarrow> error + reference list" where
  "make_references get_relative_uri fromdocname e =
     (case all_posts e of
        None \<Rightarrow> Inl (AttributeError ''all_posts'')
      | Some posts \<Rightarrow> references_of get_relative_uri fromdocname posts)"

definition make_item :: "post_info \<times> reference \<Rightarrow> item" where
  "make_item pr =
     \<lparr>item_time = post_time (fst pr), refnode = snd pr, item_post_node = post_node (fst pr)\<rparr>"

definition make_flat_item :: "post_info \<times> reference \<Rightarrow> flat_item" where
  "make_flat_item pr =
     \<lparr>flat_time = post_time (fst pr), flat_refnode = snd pr,
      flat_post_node = post_node (fst pr), flat_docname = post_docname (fst pr)\<rparr>"

text \<open>
  The identifier loop, the same for the three kinds:
  \<^verbatim>\<open>
      for cat in sorted(categories):
          cat_id = 'category-%d' % env.new_serialno('category')
          env.category_id[cat] = cat_id
  \<close>
\<close>

fun assign_ids :: "string \<Rightarrow> 'k list \<Rightarrow> ('k \<times> string) list \<Rightarrow> env \<Rightarrow> ('k \<times> string) list \<times> env" where
  "assign_ids kind [] id_dict e = (id_dict, e)"
| "assign_ids kind (k # ks) id_dict e =
     (case new_serialno kind e of
        (n, e') \<Rightarrow> assign_ids kind ks (AList.update k (kind @ ''-'' @ show_nat n) id_dict) e')"

text \<open>
  \<^verbatim>\<open>
  def build_category_info(app, fromdocname):
      env = app.builder.env
      categories = {}
      references = make_references(app, fromdocname)
      for post_info, refnode in zip(env.all_posts, references):
          post_node = post_info['post_node']
          cat = post_node['category']
          if cat not in categories:
              categories[cat] = []
          categories[cat].append({'time': post_info['time'], 'refnode': refnode,
                                  'post_node': post_node})
      for cat, items in categories.items():
          categories[cat] = sorted(items, key=lambda x: x['time'], reverse=True)
      if not hasattr(env, 'category_id'):
          env.category_id = {}
          for cat in sorted(categories):
              cat_id = 'category-%d' % env.new_serialno('category')
              env.category_id[cat] = cat_id
      return categories
  \<close>
  The result is the dict together with the environment the call leaves behind.
\<close>

definition sort_groups :: "('k \<times> item list) list \<Rightarrow> ('k \<times> item list) list" where
  "sort_groups d = map (\<lambda>(k, items). (k, sorted_py item_time True items)) d"

definition build_category_info ::
  "relative_uri \<Rightarrow> string \<Rightarrow> env \<Rightarrow> error + ((string \<times> item list) list \<times> env)" where
  "build_category_info get_relative_uri fromdocname e =
     (case make_references get_relative_uri fromdocname e of
        Inl err \<Rightarrow> Inl err
      | Inr references \<Rightarrow>
          (case all_posts e of
             None \<Rightarrow> Inl (AttributeError ''all_posts'')
           | Some posts \<Rightarrow>
               (let categories =
                      fold (\<lambda>pr. group_append (category (post_node (fst pr))) (make_item pr))
                        (zip posts references) [];
                    categories = sort_groups categories
                in case category_id e of
                     Some _ \<Rightarrow> Inr (categories, e)
                   | None \<Rightarrow>
                       (case assign_ids ''category'' (sort (map fst categories)) [] e of
                          (id_dict, e') \<Rightarrow> Inr (categories, e'\<lparr>category_id := Some id_dict\<rparr>)))))"

text \<open>\<^verbatim>\<open>build_tag_info\<close> is the same with an inner loop \<^verbatim>\<open>for tag in post_node['tags']\<close>
  and the kind \<^verbatim>\<open>'tag'\<close>.\<close>

definition build_tag_info ::
  "relative_uri \<Rightarrow> string \<Rightarrow> env \<Rightarrow> error + ((string \<times> item list) list \<times> env)" where
  "build_tag_info get_relative_uri fromdocname e =
     (case make_references get_relative_uri fromdocname e of
        Inl err \<Rightarrow> Inl err
      | Inr references \<Rightarrow>
          (case all_posts e of
             None \<Rightarrow> Inl (AttributeError ''all_posts'')
           | Some posts \<Rightarrow>
               (let tag_dict =
                      fold (\<lambda>pr. fold (\<lambda>tag. group_append tag (make_item pr))
                                    (tags (post_node (fst pr))))
                        (zip posts references) [];
                    tag_dict = sort_groups tag_dict
                in case tag_id e of
                     Some _ \<Rightarrow> Inr (tag_dict, e)
                   | None \<Rightarrow>
                       (case assign_ids ''tag'' (sort (map fst tag_dict)) [] e of
                          (id_dict, e') \<Rightarrow> Inr (tag_dict, e'\<lparr>tag_id := Some id_dict\<rparr>)))))"

text \<open>
  \<^verbatim>\<open>build_archive_info\<close> groups on \<^verbatim>\<open>post_node['year']\<close>, appends every post to
  \<^verbatim>\<open>archive_flat\<close> as well, sorts both, and assigns the identifiers of kind \<^verbatim>\<open>'year'\<close>:
  \<^verbatim>\<open>
      for year, items in archive.items():  # sort on time
          archive[year] = sorted(items, key=lambda x: x['time'], reverse=True)
      archive_flat = sorted(archive_flat, key=lambda x: x['time'], reverse=True)
      if not hasattr(env, 'archive_id'):
          env.archive_id = {}
          for year in sorted(archive):
              year_id = 'year-%d' % env.new_serialno('year')
              env.archive_id[year] = year_id
      return archive, archive_flat
  \<close>
\<close>

definition build_archive_info ::
  "relative_uri \<Rightarrow> string \<Rightarrow> env \<Rightarrow> error + ((int \<times> item list) list \<times> flat_item list \<times> env)" where
  "build_archive_info get_relative_uri fromdocname e =
     (case make_references get_relative_uri fromdocname e of
        Inl err \<Rightarrow> Inl err
      | Inr references \<Rightarrow>
          (case all_posts e of
             None \<Rightarrow> Inl (AttributeError ''all_posts'')
           | Some posts \<Rightarrow>
               (let archive =
                      fold (\<lambda>pr. group_append (year (post_node (fst pr))) (make_item pr))
                        (zip posts references) [];
                    archive_flat = map make_flat_item (zip posts references);
                    archive = sort_groups archive;
                    archive_flat = sorted_py flat_time True archive_flat
                in case archive_id e of
                     Some _ \<Rightarrow> Inr (archive, archive_flat, e)
                   | None \<Rightarrow>
                       (case assign_ids ''year'' (sort (map fst archive)) [] e of
                          (id_dict, e') \<Rightarrow>
                            Inr (archive, archive_flat, e'\<lparr>archive_id := Some id_dict\<rparr>)))))"

section \<open>Navigation links\<close>

text \<open>
  \<^verbatim>\<open>
  def add_next_prev(app, node, archive_flat):
      postmax = len(archive_flat) - 1
      for i, item in enumerate(archive_flat):
          if node['time'] == item['time']:
              idx_prev = i + 1
              if idx_prev > postmax:
                  idx_prev = 0
                  node['prev_text'] = '&olarr; Newest'
              else:
                  node['prev_text'] = '&larr; Previous'
              idx_next = i - 1
              if idx_next < 0:
                  idx_next = postmax
                  node['next_text'] = 'Oldest &orarr;'
              else:
                  node['next_text'] = 'Next &rarr;'
              node['next'] = app.builder.get_relative_uri(
                  node['docname'], archive_flat[idx_next]['docname'])
              node['prev'] = app.builder.get_relative_uri(
                  node['docname'], archive_flat[idx_prev]['docname'])
  \<close>
  The copy in \<^verbatim>\<open>blogpost.py\<close> differs in the four label texts only, so the labels are a
  parameter. The loop has no \<^verbatim>\<open>break\<close>: every matching item overwrites the four
  attributes. \<open>set_links\<close> is the body of the \<^verbatim>\<open>if\<close> at index \<open>i\<close>; both list reads
  are in range there (\<open>set_links_in_range\<close> below).
\<close>

record nav_labels =
  newest_label :: string
  previous_label :: string
  oldest_label :: string
  next_label :: string

definition labels_init :: nav_labels where
  "labels_init =
     \<lparr>newest_label = ''&olarr; Newest'', previous_label = ''&larr; Previous'',
      oldest_label = ''Oldest &orarr;'', next_label = ''Next &rarr;''\<rparr>"

definition labels_legacy :: nav_labels where
  "labels_legacy =
     \<lparr>newest_label = ''Newest &olarr;'', previous_label = ''Previous &rarr;'',
      oldest_label = ''&orarr; Oldest'', next_label = ''&larr; Next''\<rparr>"

definition idx_prev_of :: "flat_item list \<Rightarrow> nat \<Rightarrow> int" where
  "idx_prev_of archive_flat i =
     (let postmax = int (length archive_flat) - 1; idx_prev = int i + 1
      in if idx_prev > postmax then 0 else idx_prev)"

definition idx_next_of :: "flat_item list \<Rightarrow> nat \<Rightarrow> int" where
  "idx_next_of archive_flat i =
     (let postmax = int (length archive_flat) - 1; idx_next = int i - 1
      in if idx_next < 0 then postmax else idx_next)"

definition set_links :: "nav_labels \<Rightarrow> relative_uri \<Rightarrow> flat_item list \<Rightarrow> nat \<Rightarrow> BlogNode \<Rightarrow> BlogNode" where
  "set_links L get_relative_uri archive_flat i node =
     (let postmax = int (length archive_flat) - 1;
          node = node\<lparr>prev_text :=
                   Some (if int i + 1 > postmax then newest_label L else previous_label L)\<rparr>;
          node = node\<lparr>next_text :=
                   Some (if int i - 1 < 0 then oldest_label L else next_label L)\<rparr>;
          node = node\<lparr>node_next :=
                   Some (get_relative_uri (node_docname node)
                     (flat_docname (archive_flat ! nat (idx_next_of archive_flat i))))\<rparr>
      in node\<lparr>node_prev :=
                   Some (get_relative_uri (node_docname node)
                     (flat_docname (archive_flat ! nat (idx_prev_of archive_flat i))))\<rparr>)"

definition add_next_prev :: "nav_labels \<Rightarrow> relative_uri \<Rightarrow> BlogNode \<Rightarrow> flat_item list \<Rightarrow> BlogNode" where
  "add_next_prev L get_relative_uri node archive_flat =
     fold (\<lambda>(i, item) node.
             if node_time node = flat_time item
             then set_links L get_relative_uri archive_flat i node else node)
       (enumerate 0 archive_flat) node"

text \<open>The indices of the flattened list whose time equals the node's, in list order.\<close>

definition matches :: "BlogNode \<Rightarrow> flat_item list \<Rightarrow> nat list" where
  "matches node archive_flat =
     filter (\<lambda>i. flat_time (archive_flat ! i) = node_time node) [0..<length archive_flat]"

section \<open>Directives\<close>

text \<open>
  \<^verbatim>\<open>os.path.dirname\<close> for POSIX paths: everything up to the last slash, without trailing
  slashes unless it consists of slashes only.
\<close>

definition os_path_dirname :: "string \<Rightarrow> string" where
  "os_path_dirname p =
     (let head = (if CHR ''/'' \<in> set p then rev (dropWhile (\<lambda>c. c \<noteq> CHR ''/'') (rev p)) else [])
      in if head \<noteq> [] \<and> filter (\<lambda>c. c \<noteq> CHR ''/'') head \<noteq> []
         then rev (dropWhile (\<lambda>c. c = CHR ''/'') (rev head)) else head)"

text \<open>
  The options of a directive map a key to its argument, \<open>Some None\<close> for an option
  written without a value. The loop of \<^verbatim>\<open>run\<close> stores the converted argument, or
  \<^verbatim>\<open>empty_defaults[key]\<close>, which is the conversion of \<^verbatim>\<open>None\<close>:
  \<^verbatim>\<open>
      for key in self.option_spec:
          if key in self.options:
              node[key] = self.options[key]
          else:
              node[key] = self.empty_defaults[key]
  \<close>
\<close>

type_synonym directive_options = "string \<Rightarrow> string option option"

definition option_value :: "(string option \<Rightarrow> 'a) \<Rightarrow> directive_options \<Rightarrow> string \<Rightarrow> 'a" where
  "option_value conv options key =
     (case options key of Some argument \<Rightarrow> conv argument | None \<Rightarrow> conv None)"

text \<open>
  \<^verbatim>\<open>
      time = datetime.strptime(node['time'], self.date_format)
      year = time.year
      node['short_time'] = time.strftime(self.short_date_format)
      ...
      return_nodes = []
      try:
          env = self.state.document.settings.env
          targetid = "post-%d" % env.new_serialno('post')
          targetnode = nodes.target('', '', ids=[targetid])
          node['docname'] = env.docname
          node['dirname'] = os.path.dirname(env.docname)
          node['targetid'] = targetid
          if node['summary_image']:
              ...
              env.images.add_file('', img['uri'])
              return_nodes.append(sub)
          if not hasattr(env, 'all_posts'):
              env.all_posts = []
          env.all_posts.append({...})
          return_nodes.append(targetnode)
          return_nodes.append(node)
          return return_nodes
      except AttributeError:
          pass
      return [node]
  \<close>
  \<open>strptime\<close> and \<open>strftime\<close> stand for the library's \<^verbatim>\<open>datetime.strptime\<close> with the
  format \<^verbatim>\<open>'%d.%m.%Y, %H:%M:%S'\<close> and \<^verbatim>\<open>strftime\<close> with \<^verbatim>\<open>'%B %d, %Y'\<close>; a time that
  does not parse is the error the library raises. The environment is \<open>None\<close> when the
  document settings have none, which the \<^verbatim>\<open>try\<close> block catches. The result is the
  environment the call leaves behind and either the raised error or the returned nodes.
\<close>

definition BlogPostDirective_run ::
  "(string \<Rightarrow> error + datetime) \<Rightarrow> (datetime \<Rightarrow> string) \<Rightarrow> directive_options \<Rightarrow> env option
     \<Rightarrow> env option \<times> (error + out_node list)" where
  "BlogPostDirective_run strptime strftime options envo =
     (case strptime (option_value stripped options ''time'') of
        Inl err \<Rightarrow> (envo, Inl err)
      | Inr time \<Rightarrow>
          (let node_tags = option_value cvs_to_list options ''tags'';
               node =
                 \<lparr>author = option_value stripped options ''author'',
                  author_email = option_value stripped options ''author_email'',
                  tags = node_tags,
                  title = option_value stripped options ''title'',
                  category = option_value stripped options ''category'',
                  location_city = option_value stripped options ''location_city'',
                  location_country = option_value stripped options ''location_country'',
                  node_time = time,
                  summary = option_value stripped options ''summary'',
                  summary_image = option_value stripped options ''summary_image'',
                  short_time = strftime time,
                  category_ref = None,
                  node_docname = None,
                  tags_ref = map (\<lambda>_. None) node_tags,
                  tags_and_ref = map (\<lambda>_. (None, None)) node_tags,
                  year = dt_year time,
                  dirname = None,
                  node_targetid = None,
                  prev_text = None,
                  next_text = None,
                  node_next = None,
                  node_prev = None\<rparr>
           in case envo of
                None \<Rightarrow> (None, Inr [Blog node])
              | Some e0 \<Rightarrow>
                  (case new_serialno ''post'' e0 of
                     (n, e1) \<Rightarrow>
                       (let targetid = ''post-'' @ show_nat n;
                            target_node = \<lparr>ids = [targetid], refid = None\<rparr>;
                            node = node\<lparr>node_docname := Some (env_docname e1),
                                        dirname := Some (os_path_dirname (env_docname e1)),
                                        node_targetid := Some targetid\<rparr>;
                            has_image = (summary_image node \<noteq> []);
                            e2 = (if has_image
                                  then e1\<lparr>images := images e1 @ [summary_image node]\<rparr> else e1);
                            return_nodes =
                              (if has_image then [Substitution (summary_image node)] else []);
                            posts = (case all_posts e2 of None \<Rightarrow> [] | Some ps \<Rightarrow> ps);
                            e3 = e2\<lparr>all_posts := Some (posts @
                                   [\<lparr>post_time = time, post_node = node,
                                     post_docname = env_docname e2, post_datetime = time,
                                     post_targetid = targetid, targetnode = target_node\<rparr>])\<rparr>
                        in (Some e3, Inr (return_nodes @ [Target target_node, Blog node]))))))"

text \<open>
  The listing directives. Each reads the environment without a \<^verbatim>\<open>try\<close> block:
  \<^verbatim>\<open>
      env = self.state.document.settings.env
      if not hasattr(env, 'category_docname'):
          env.category_docname = env.docname
      else:
          raise ValueError('Only one category list is supported!')
      node['categories'] = []
      return [node]
  \<close>
\<close>

definition BlogCategoryDirective_run :: "env option \<Rightarrow> env option \<times> (error + out_node list)" where
  "BlogCategoryDirective_run envo =
     (case envo of
        None \<Rightarrow> (None, Inl (AttributeError ''env''))
      | Some e \<Rightarrow>
          (case category_docname e of
             None \<Rightarrow> (Some (e\<lparr>category_docname := Some (env_docname e)\<rparr>), Inr [Category])
           | Some _ \<Rightarrow> (envo, Inl (ValueError ''Only one category list is supported!''))))"

definition BlogTagDirective_run :: "env option \<Rightarrow> env option \<times> (error + out_node list)" where
  "BlogTagDirective_run envo =
     (case envo of
        None \<Rightarrow> (None, Inl (AttributeError ''env''))
      | Some e \<Rightarrow>
          (case tag_docname e of
             None \<Rightarrow> (Some (e\<lparr>tag_docname := Some (env_docname e)\<rparr>), Inr [Tag])
           | Some _ \<Rightarrow> (envo, Inl (ValueError ''Only one tag list is supported!''))))"

definition BlogArchiveDirective_run :: "env option \<Rightarrow> env option \<times> (error + out_node list)" where
  "BlogArchiveDirective_run envo =
     (case envo of
        None \<Rightarrow> (None, Inl (AttributeError ''env''))
      | Some e \<Rightarrow>
          (case archive_docname e of
             None \<Rightarrow> (Some (e\<lparr>archive_docname := Some (env_docname e)\<rparr>), Inr [Archive])
           | Some _ \<Rightarrow> (envo, Inl (ValueError ''Only one archive list is supported!''))))"

text \<open>
  The recent-posts directive first copies its one option, \<^verbatim>\<open>length\<close> (converted by the
  host to a positive integer), which raises \<^verbatim>\<open>KeyError\<close> when the option is missing:
  \<^verbatim>\<open>
      for key in self.option_spec:
          node[key] = self.options[key]
      node['items'] = []
      node['nmax'] = 0
      env = self.state.document.settings.env
      if not hasattr(env, 'recent_docname'):
          env.recent_docname = env.docname
      else:
          raise ValueError('Recent posts can only be inserted once!')
      if not hasattr(env, 'recent_nodes'):
          env.recent_nodes = []
      env.recent_nodes.append(node)
      return [node]
  \<close>
\<close>

definition BlogRecentDirective_run ::
  "nat option \<Rightarrow> env option \<Rightarrow> env option \<times> (error + out_node list)" where
  "BlogRecentDirective_run length_option envo =
     (case length_option of
        None \<Rightarrow> (envo, Inl (KeyError ''length''))
      | Some n \<Rightarrow>
          (case envo of
             None \<Rightarrow> (None, Inl (AttributeError ''env''))
           | Some e \<Rightarrow>
               (case recent_docname e of
                  Some _ \<Rightarrow> (envo, Inl (ValueError ''Recent posts can only be inserted once!''))
                | None \<Rightarrow>
                    (let node = \<lparr>recent_length = n, recent_nmax = 0\<rparr>;
                         e1 = e\<lparr>recent_docname := Some (env_docname e)\<rparr>;
                         nodes = (case recent_nodes e1 of None \<Rightarrow> [] | Some ns \<Rightarrow> ns);
                         e2 = e1\<lparr>recent_nodes := Some (nodes @ [node])\<rparr>
                     in (Some e2, Inr [Recent node])))))"

section \<open>Notions used in the statements\<close>

text \<open>A post whose target has been resolved by the host, so that \<^verbatim>\<open>make_references\<close>
  finds its \<^verbatim>\<open>refid\<close>.\<close>

definition has_refid :: "post_info \<Rightarrow> bool" where
  "has_refid p = (refid (targetnode p) \<noteq> None)"

text \<open>The list stored under a key, empty for a key the dict does not have.\<close>

definition group_items :: "('k \<times> 'v list) list \<Rightarrow> 'k \<Rightarrow> 'v list" where
  "group_items d k = (case map_of d k of None \<Rightarrow> [] | Some items \<Rightarrow> items)"

text \<open>The (tag, item) pairs in the order the two nested loops of \<^verbatim>\<open>build_tag_info\<close>
  visit them: store order, then the order of the post's tag list.\<close>

definition tag_pairs :: "(post_info \<times> reference) list \<Rightarrow> (string \<times> item) list" where
  "tag_pairs zs = concat (map (\<lambda>pr. map (\<lambda>tag. (tag, make_item pr)) (tags (post_node (fst pr)))) zs)"

text \<open>Newest first: every element's key is at least the key of every later element.\<close>

definition descending :: "('a \<Rightarrow> 'k::linorder) \<Rightarrow> 'a list \<Rightarrow> bool" where
  "descending key xs = sorted_wrt (\<lambda>a b. key b \<le> key a) xs"

text \<open>The grouping loops as one fold over (key, value) pairs, and the dicts the three
  builders return, written over the posts zipped with their references.\<close>

definition group_fold :: "('k \<times> 'v) list \<Rightarrow> ('k \<times> 'v list) list \<Rightarrow> ('k \<times> 'v list) list" where
  "group_fold kvs d = fold (\<lambda>kv. group_append (fst kv) (snd kv)) kvs d"

definition grouped :: "(post_info \<times> reference \<Rightarrow> 'k) \<Rightarrow> (post_info \<times> reference) list \<Rightarrow> ('k \<times> item list) list" where
  "grouped key zs = sort_groups (group_fold (map (\<lambda>pr. (key pr, make_item pr)) zs) [])"

definition tag_grouped :: "(post_info \<times> reference) list \<Rightarrow> (string \<times> item list) list" where
  "tag_grouped zs = sort_groups (group_fold (tag_pairs zs) [])"

text \<open>The identifiers issued to the keys \<open>ks\<close>, in their order, from a counter that
  stands at \<open>n\<close>: the key at position \<open>i\<close> gets the kind, a dash and \<open>n + i\<close>.\<close>

definition issued :: "string \<Rightarrow> nat \<Rightarrow> 'k list \<Rightarrow> ('k \<times> string) list" where
  "issued kind n ks = zip ks (map (\<lambda>i. kind @ ''-'' @ show_nat (n + i)) [0..<length ks])"

text \<open>One round of the loop of \<^verbatim>\<open>add_next_prev\<close>, for the pair that
  \<^verbatim>\<open>enumerate\<close> yields.\<close>

definition link_step :: "nav_labels \<Rightarrow> relative_uri \<Rightarrow> flat_item list \<Rightarrow> nat \<times> flat_item \<Rightarrow> BlogNode \<Rightarrow> BlogNode" where
  "link_step L g fl = (\<lambda>(i, item) node.
             if node_time node = flat_time item then set_links L g fl i node else node)"

text \<open>The posts in the store, none while \<^verbatim>\<open>env.all_posts\<close> does not exist.\<close>

definition stored_posts :: "env \<Rightarrow> post_info list" where
  "stored_posts e = (case all_posts e of None \<Rightarrow> [] | Some ps \<Rightarrow> ps)"

section \<open>Example build\<close>

text \<open>
  A reading of the time format for the examples: two digits per field, four for the year.
  The library accepts more spellings and checks the calendar; the theorems below hold for
  any parser and do not depend on this one.
\<close>

definition digit_val :: "char \<Rightarrow> nat option" where
  "digit_val c = (let n = (of_char c :: nat) in if 48 \<le> n \<and> n \<le> 57 then Some (n - 48) else None)"

fun number_of :: "nat \<Rightarrow> string \<Rightarrow> nat option" where
  "number_of acc [] = Some acc"
| "number_of acc (c # cs) =
     (case digit_val c of None \<Rightarrow> None | Some d \<Rightarrow> number_of (10 * acc + d) cs)"

definition field :: "nat \<Rightarrow> nat \<Rightarrow> string \<Rightarrow> nat option" where
  "field start len s = number_of 0 (take len (drop start s))"

definition strptime_fixed :: "string \<Rightarrow> error + datetime" where
  "strptime_fixed s =
     (if length s = 20 \<and> map (\<lambda>i. s ! i) [2, 5, 10, 11, 14, 17] = ''.., ::''
      then (case those [field 0 2 s, field 3 2 s, field 6 4 s,
                        field 12 2 s, field 15 2 s, field 18 2 s] of
              Some [d, m, y, h, mi, sec] \<Rightarrow>
                if 1 \<le> d \<and> d \<le> 31 \<and> 1 \<le> m \<and> m \<le> 12 \<and> 1 \<le> y \<and> h \<le> 23 \<and> mi \<le> 59 \<and> sec \<le> 59
                then Inr (int y, int m, int d, int h, int mi, int sec)
                else Inl (ValueError ''time data does not match format'')
            | _ \<Rightarrow> Inl (ValueError ''time data does not match format''))
      else Inl (ValueError ''time data does not match format''))"

definition strftime_short :: "datetime \<Rightarrow> string" where
  "strftime_short t =
     (case t of (y, m, d, _) \<Rightarrow>
        [''January'', ''February'', ''March'', ''April'', ''May'', ''June'', ''July'',
         ''August'', ''September'', ''October'', ''November'', ''December''] ! (nat m - 1)
        @ '' '' @ (if d < 10 then ''0'' else []) @ show_nat (nat d) @ '', '' @ show_nat (nat y))"

text \<open>The environment at the start of a build: no attribute of the extension is set.\<close>

definition env0 :: env where
  "env0 = \<lparr>env_docname = ''posts/2018/first'', serialno = (\<lambda>_. 0), images = [],
           all_posts = None, category_id = None, tag_id = None, archive_id = None,
           category_docname = None, tag_docname = None, archive_docname = None,
           recent_docname = None, recent_nodes = None\<rparr>"

definition post_options :: "string \<Rightarrow> string \<Rightarrow> string \<Rightarrow> string \<Rightarrow> directive_options" where
  "post_options ti cat tgs tm =
     map_of [(''title'', Some ti), (''category'', Some cat), (''tags'', Some tgs),
             (''time'', Some tm)]"

definition uri0 :: relative_uri where
  "uri0 from to = to"

text \<open>
  A post as the directive stores it for the given title, category, tags and time in the
  given document, with the target resolved by the host (\<^verbatim>\<open>refid\<close> set to the target id);
  \<open>directive_stores_example_post\<close> below runs the directive for the first of them.
\<close>

definition example_node ::
  "string \<Rightarrow> string \<Rightarrow> string list \<Rightarrow> datetime \<Rightarrow> string \<Rightarrow> string \<Rightarrow> string \<Rightarrow> BlogNode" where
  "example_node ti cat tgs tm short doc tid =
     \<lparr>author = [], author_email = [], tags = tgs, title = ti, category = cat,
      location_city = [], location_country = [], node_time = tm, summary = [],
      summary_image = [], short_time = short, category_ref = None,
      node_docname = Some doc, tags_ref = map (\<lambda>_. None) tgs,
      tags_and_ref = map (\<lambda>_. (None, None)) tgs, year = fst tm,
      dirname = Some ''posts'', node_targetid = Some tid,
      prev_text = None, next_text = None, node_next = None, node_prev = None\<rparr>"

definition example_post ::
  "string \<Rightarrow> string \<Rightarrow> string list \<Rightarrow> datetime \<Rightarrow> string \<Rightarrow> string \<Rightarrow> string \<Rightarrow> post_info" where
  "example_post ti cat tgs tm short doc tid =
     \<lparr>post_time = tm, post_node = example_node ti cat tgs tm short doc tid,
      post_docname = doc, post_datetime = tm, post_targetid = tid,
      targetnode = \<lparr>ids = [tid], refid = Some tid\<rparr>\<rparr>"

text \<open>Three posts: the first two share their time, the second repeats a tag, the
  categories arrive in the order b, a, c.\<close>

definition posts3 :: "post_info list" where
  "posts3 =
     [example_post ''B'' ''b'' [''x'', ''y''] (2018, 2, 1, 10, 0, 0) ''February 01, 2018''
        ''posts/b'' ''post-0'',
      example_post ''A'' ''a'' [''y'', ''y''] (2018, 2, 1, 10, 0, 0) ''February 01, 2018''
        ''posts/a'' ''post-1'',
      example_post ''C'' ''c'' [''z''] (2019, 3, 5, 8, 30, 0) ''March 05, 2019''
        ''posts/c'' ''post-2'']"

definition store3 :: env where
  "store3 = env0\<lparr>all_posts := Some posts3\<rparr>"

definition refs3 :: "reference list" where
  "refs3 = (case make_references uri0 ''posts/index'' store3 of
              Inr refs \<Rightarrow> refs | Inl _ \<Rightarrow> [])"

text \<open>
  A build in which the identifiers were computed while the store held the first post
  only (\<open>store1\<close>), and two more posts were stored afterwards (\<open>env2\<close>).
\<close>

definition store1 :: env where
  "store1 = env0\<lparr>all_posts := Some [posts3 ! 0]\<rparr>"

definition env2 :: env where
  "env2 = env0\<lparr>serialno := (\<lambda>_. 0)(''category'' := 1, ''tag'' := 2, ''year'' := 1),
               all_posts := Some posts3,
               category_id := Some [(''b'', ''category-0'')],
               tag_id := Some [(''x'', ''tag-0''), (''y'', ''tag-1'')],
               archive_id := Some [(2018, ''year-0'')]\<rparr>"

text \<open>The flattened list of the three posts (C, then B and A, which share their time), and
  a flattened list of three posts with distinct times, newest first.\<close>

definition flat3 :: "flat_item list" where
  "flat3 = sorted_py flat_time True (map make_flat_item (zip posts3 refs3))"

definition nav3 :: "flat_item list" where
  "nav3 = map make_flat_item
     [(example_post ''P1'' ''a'' [] (2019, 3, 5, 8, 30, 0) ''March 05, 2019'' ''posts/p1'' ''post-0'',
       \<lparr>ref_text = ''P1'', refuri = ''posts/p1#post-0''\<rparr>),
      (example_post ''P2'' ''a'' [] (2018, 2, 1, 10, 0, 0) ''February 01, 2018'' ''posts/p2'' ''post-0'',
       \<lparr>ref_text = ''P2'', refuri = ''posts/p2#post-0''\<rparr>),
      (example_post ''P3'' ''a'' [] (2017, 1, 9, 7, 15, 0) ''January 09, 2017'' ''posts/p3'' ''post-0'',
       \<lparr>ref_text = ''P3'', refuri = ''posts/p3#post-0''\<rparr>)]"

text \<open>The options of a post directive whose time is not in the format, and of one whose
  time is; an environment in which each listing directive has occurred once.\<close>

definition bad_time_options :: directive_options where
  "bad_time_options = post_options ''D'' ''d'' ''w'' ''2018-02-01 10:00''"

definition good_time_options :: directive_options where
  "good_time_options = post_options ''D'' ''d'' ''w'' ''06.03.2019, 09:00:00''"

definition env_listed :: env where
  "env_listed = env0\<lparr>category_docname := Some ''posts/categories'',
                     tag_docname := Some ''posts/tags'',
                     archive_docname := Some ''posts/archive'',
                     recent_docname := Some ''index''\<rparr>"

section \<open>Properties of the text helpers\<close>

lemma split_ne: "split c s \<noteq> []"
  by (induction s) auto

lemma split_join: "fs \<noteq> [] \<Longrightarrow> \<forall>f\<in>set fs. c \<notin> set f \<Longrightarrow> split c (join c fs) = fs"
proof (induction c fs rule: join.induct)
  case (1 c) then show ?case by simp
next
  case (2 c f)
  then show ?case by (induction f) auto
next
  case (3 c f g fs)
  then have IH: "split c (join c (g # fs)) = g # fs" by simp
  from 3 have "c \<notin> set f" by simp
  then show ?case using IH by (induction f) auto
qed

lemma join_Cons_field: "fs \<noteq> [] \<Longrightarrow> join c ((x # hd fs) # tl fs) = x # join c fs"
  by (cases fs; cases "tl fs") auto

lemma join_Nil_field: "fs \<noteq> [] \<Longrightarrow> join c ([] # fs) = c # join c fs"
  by (cases fs) auto

lemma join_split: "join c (split c s) = s"
  by (induction s) (auto simp: join_Cons_field join_Nil_field split_ne)

lemma split_fields_no_sep: "f \<in> set (split c s) \<Longrightarrow> c \<notin> set f"
proof (induction s arbitrary: f)
  case Nil then show ?case by simp
next
  case (Cons x xs)
  show ?case
  proof (cases "x = c")
    case True with Cons show ?thesis by auto
  next
    case False
    obtain g gs where sp: "split c xs = g # gs"
      using split_ne[of c xs] by (cases "split c xs") auto
    with Cons False show ?thesis by auto
  qed
qed

lemma length_split: "length (split c s) = Suc (count_list s c)"
  by (induction s) (auto simp: split_ne)

lemma rsplit1_last: "c \<notin> set b \<Longrightarrow> rsplit1 c (a @ c # b) = [a, b]"
proof -
  assume nb: "c \<notin> set b"
  have tw: "takeWhile (\<lambda>x. x \<noteq> c) (rev b @ c # rev a) = rev b"
    using nb by (auto simp: takeWhile_tail)
  have dw: "dropWhile (\<lambda>x. x \<noteq> c) (rev b @ c # rev a) = c # rev a"
    using nb by (subst dropWhile_append2) auto
  show ?thesis using tw dw by (simp add: rsplit1_def)
qed

lemma rsplit1_none: "c \<notin> set s \<Longrightarrow> rsplit1 c s = [s]"
  by (simp add: rsplit1_def)

lemma shorten_text_short: "length text \<le> n \<Longrightarrow> shorten_text text n suffix = text"
  by (simp add: shorten_text_def)

lemma shorten_text_at_space:
  assumes long: "n < length text" and i: "i < n" and sp: "text ! i = CHR '' ''"
    and later: "\<forall>j. i < j \<and> j < n \<longrightarrow> text ! j \<noteq> CHR '' ''"
  shows "shorten_text text n suffix = take i text @ suffix"
proof -
  let ?p = "take n text"
  have len: "length ?p = n" using long by simp
  have dec: "?p = take i ?p @ ?p ! i # drop (Suc i) ?p"
    using i len id_take_nth_drop[of i ?p] by simp
  have a: "take i ?p = take i text" using i by (simp add: min_def)
  have b: "?p ! i = CHR '' ''" using i sp by simp
  have c: "CHR '' '' \<notin> set (drop (Suc i) ?p)"
  proof
    assume "CHR '' '' \<in> set (drop (Suc i) ?p)"
    then obtain k where k: "k < length (drop (Suc i) ?p)" "drop (Suc i) ?p ! k = CHR '' ''"
      by (auto simp: in_set_conv_nth)
    then have "Suc i + k < n" using len by simp
    moreover have "text ! (Suc i + k) = CHR '' ''" using k len by simp
    ultimately show False using later by auto
  qed
  have "?p = take i text @ CHR '' '' # drop (Suc i) ?p" using dec a b by simp
  then have "rsplit1 (CHR '' '') ?p = [take i text, drop (Suc i) ?p]"
    using rsplit1_last[OF c, of "take i text"] by simp
  then show ?thesis using long by (simp add: shorten_text_def)
qed

lemma shorten_text_no_space:
  "n < length text \<Longrightarrow> CHR '' '' \<notin> set (take n text)
     \<Longrightarrow> shorten_text text n suffix = take n text @ suffix"
  by (simp add: shorten_text_def rsplit1_none)

lemma last_dropWhile: "dropWhile P xs \<noteq> [] \<Longrightarrow> last (dropWhile P xs) = last xs"
  by (induction xs) (auto split: if_splits)

lemma strip_ends:
  assumes "strip s \<noteq> []"
  shows "\<not> isspace (hd (strip s)) \<and> \<not> isspace (last (strip s))"
proof -
  let ?d = "dropWhile isspace s"
  let ?e = "dropWhile isspace (rev ?d)"
  have e: "?e \<noteq> []" using assms by (simp add: strip_def)
  have d: "?d \<noteq> []"
  proof
    assume a: "?d = []"
    have "?e = []" unfolding a by simp
    with e show False by (rule notE)
  qed
  have "last (strip s) = hd ?e" using e by (simp add: strip_def last_rev)
  moreover have "\<not> isspace (hd ?e)" using e hd_dropWhile by blast
  moreover have "hd (strip s) = last ?e" using e by (simp add: strip_def hd_rev)
  moreover have "last ?e = last (rev ?d)" using e by (rule last_dropWhile)
  moreover have "last (rev ?d) = hd ?d" using d by (simp add: last_rev)
  moreover have "\<not> isspace (hd ?d)" using d hd_dropWhile by blast
  ultimately show ?thesis by simp
qed

lemma lower_char_idem: "lower_char (lower_char c) = lower_char c"
  by (simp add: lower_char_def Let_def)

lemma isspace_lower_char: "isspace (lower_char c) = isspace c"
  by (auto simp: lower_char_def isspace_def Let_def)

lemma lower_strip_ends:
  assumes "lower (strip s) \<noteq> []"
  shows "\<not> isspace (hd (lower (strip s))) \<and> \<not> isspace (last (lower (strip s)))"
proof -
  have ne: "strip s \<noteq> []" using assms by (simp add: lower_def)
  have "hd (lower (strip s)) = lower_char (hd (strip s))" using ne by (simp add: lower_def hd_map)
  moreover have "last (lower (strip s)) = lower_char (last (strip s))"
    using ne by (simp add: lower_def last_map)
  ultimately show ?thesis using strip_ends[OF ne] by (simp add: isspace_lower_char)
qed

text \<open>
  C9: \<^verbatim>\<open>shorten_text\<close> with the limit 50 and the suffix \<^verbatim>\<open>...\<close> returns a text of at most
  50 characters unchanged. A longer text, a 51-character one in particular, comes back
  as its prefix up to the last space among its first 50 characters, followed by the
  suffix; when those 50 characters hold no space the prefix is all 50 of them. The result
  then has \<open>i + 3\<close> characters for a last space at position \<open>i\<close>, and 53 without a
  space, so it can be longer than 50.
\<close>

theorem shorten_text_limit_50:
  "(length text \<le> 50 \<longrightarrow> shorten_text text 50 ''...'' = text)
   \<and> (50 < length text \<longrightarrow>
        (\<forall>i. i < 50 \<and> text ! i = CHR '' '' \<and> (\<forall>j. i < j \<and> j < 50 \<longrightarrow> text ! j \<noteq> CHR '' '')
              \<longrightarrow> shorten_text text 50 ''...'' = take i text @ ''...''
                  \<and> length (shorten_text text 50 ''...'') = i + 3)
        \<and> (CHR '' '' \<notin> set (take 50 text)
              \<longrightarrow> shorten_text text 50 ''...'' = take 50 text @ ''...''
                  \<and> length (shorten_text text 50 ''...'') = 53))"
proof (intro conjI impI allI)
  assume "length text \<le> 50"
  then show "shorten_text text 50 ''...'' = text" by (rule shorten_text_short)
next
  fix i
  assume long: "50 < length text"
    and h: "i < 50 \<and> text ! i = CHR '' '' \<and> (\<forall>j. i < j \<and> j < 50 \<longrightarrow> text ! j \<noteq> CHR '' '')"
  then show eq: "shorten_text text 50 ''...'' = take i text @ ''...''"
    using shorten_text_at_space[of 50 "text" i "''...''"] by blast
  show "length (shorten_text text 50 ''...'') = i + 3" using eq long h by simp
next
  assume long: "50 < length text" and h: "CHR '' '' \<notin> set (take 50 text)"
  then show eq: "shorten_text text 50 ''...'' = take 50 text @ ''...''"
    by (rule shorten_text_no_space)
  show "length (shorten_text text 50 ''...'') = 53" using eq long by simp
qed

theorem shorten_text_limit_50_witness:
  "length text51 = 51 \<and> 50 < length text51 \<and> 49 < (50::nat) \<and> text51 ! 49 = CHR '' ''
   \<and> CHR '' '' \<notin> set (drop 50 (take 50 text51))
   \<and> shorten_text text51 50 ''...'' = ''aaaaaaaaa aaaaaaaaa aaaaaaaaa aaaaaaaaa aaaaaaaaa...''
   \<and> length (shorten_text text51 50 ''...'') = 52
   \<and> length (take 50 text51) \<le> 50
   \<and> shorten_text (take 50 text51) 50 ''...'' = take 50 text51"
proof -
  have l: "length text51 = 51" by (simp add: text51_def)
  have s: "text51 ! 49 = CHR '' ''" by (simp add: text51_def)
  have q: "\<forall>j. 49 < j \<and> j < (50::nat) \<longrightarrow> text51 ! j \<noteq> CHR '' ''" by auto
  have t: "take 49 text51 @ ''...'' = ''aaaaaaaaa aaaaaaaaa aaaaaaaaa aaaaaaaaa aaaaaaaaa...''"
    by (simp add: text51_def)
  have l50: "length (take 50 text51) \<le> 50" by simp
  have long: "50 < length text51" using l by simp
  have hyp: "49 < (50::nat) \<and> text51 ! 49 = CHR '' ''
               \<and> (\<forall>j. 49 < j \<and> j < 50 \<longrightarrow> text51 ! j \<noteq> CHR '' '')"
    using s q by simp
  note at49 = shorten_text_limit_50[of text51, THEN conjunct2, THEN mp, OF long,
      THEN conjunct1, THEN spec, of 49, THEN mp, OF hyp]
  have r: "shorten_text text51 50 ''...'' = take 49 text51 @ ''...''"
    using at49 by (rule conjunct1)
  have n: "length (shorten_text text51 50 ''...'') = 49 + 3"
    using at49 by (rule conjunct2)
  from shorten_text_limit_50[of "take 50 text51"] l50
  have u: "shorten_text (take 50 text51) 50 ''...'' = take 50 text51" by blast
  show ?thesis using l s r n t u by simp
qed

text \<open>
  C10: \<^verbatim>\<open>cvs_to_list\<close> of a missing argument is the empty list, and of \<^verbatim>\<open>" A, b ,C"\<close> it is
  \<^verbatim>\<open>["a", "b", "c"]\<close>. In general the argument is cut at its commas (the fields joined by
  commas give the argument back, and no field holds a comma), and the result lists the
  stripped, lower-cased fields in the order of the argument, one value per field, so a
  repeated value stays repeated: there is one value more than there are commas. No value
  starts or ends with a white space character, and none holds a character that
  \<^verbatim>\<open>lower\<close> would change. This is for every string of the model, the characters
  above 127 included.
\<close>

theorem cvs_to_list_fields:
  "cvs_to_list None = []
   \<and> cvs_to_list (Some '' A, b ,C'') = [''a'', ''b'', ''c'']
   \<and> cvs_to_list (Some s) = map (\<lambda>f. lower (strip f)) (split (CHR '','') s)
   \<and> join (CHR '','') (split (CHR '','') s) = s
   \<and> (\<forall>f \<in> set (split (CHR '','') s). CHR '','' \<notin> set f)
   \<and> length (cvs_to_list (Some s)) = Suc (count_list s (CHR '',''))
   \<and> (fs \<noteq> [] \<and> (\<forall>f \<in> set fs. CHR '','' \<notin> set f) \<longrightarrow>
        cvs_to_list (Some (join (CHR '','') fs)) = map (\<lambda>f. lower (strip f)) fs)
   \<and> (\<forall>v \<in> set (cvs_to_list (Some s)).
        (v \<noteq> [] \<longrightarrow> \<not> isspace (hd v) \<and> \<not> isspace (last v)) \<and> (\<forall>c \<in> set v. lower_char c = c))"
proof -
  have ex: "cvs_to_list (Some '' A, b ,C'') = [''a'', ''b'', ''c'']" by code_simp
  have j: "fs \<noteq> [] \<and> (\<forall>f \<in> set fs. CHR '','' \<notin> set f) \<longrightarrow>
        cvs_to_list (Some (join (CHR '','') fs)) = map (\<lambda>f. lower (strip f)) fs"
    by (simp add: cvs_to_list_def split_join)
  have v: "\<forall>v \<in> set (cvs_to_list (Some s)).
        (v \<noteq> [] \<longrightarrow> \<not> isspace (hd v) \<and> \<not> isspace (last v)) \<and> (\<forall>c \<in> set v. lower_char c = c)"
    using lower_strip_ends by (auto simp: cvs_to_list_def lower_def lower_char_idem)
  have l: "length (cvs_to_list (Some s)) = Suc (count_list s (CHR '',''))"
    by (simp add: cvs_to_list_def length_split)
  have n: "\<forall>f \<in> set (split (CHR '','') s). CHR '','' \<notin> set f"
    using split_fields_no_sep by blast
  have d: "cvs_to_list (Some s) = map (\<lambda>f. lower (strip f)) (split (CHR '','') s)"
    by (simp add: cvs_to_list_def)
  have e: "cvs_to_list None = []" by (simp add: cvs_to_list_def)
  show ?thesis using ex j v l n d e join_split by blast
qed

theorem cvs_to_list_fields_witness:
  "[''x'', '' Y '', ''x''] \<noteq> [] \<and> list_all (\<lambda>f. CHR '','' \<notin> set f) [''x'', '' Y '', ''x'']
   \<and> cvs_to_list (Some ''x, Y ,x'') = [''x'', ''y'', ''x'']
   \<and> list_all (\<lambda>v. v \<noteq> [] \<and> \<not> isspace (hd v) \<and> \<not> isspace (last v))
         (cvs_to_list (Some ''x, Y ,x''))
   \<and> cvs_to_list (Some tags_latin1) = [[char_of (228::nat), CHR ''b''], ''z'']
   \<and> length (cvs_to_list (Some tags_latin1)) = Suc (count_list tags_latin1 (CHR '',''))"
proof -
  have h: "[''x'', '' Y '', ''x''] \<noteq> [] \<and> (\<forall>f \<in> set [''x'', '' Y '', ''x'']. CHR '','' \<notin> set f)"
    by simp
  have j: "join (CHR '','') [''x'', '' Y '', ''x''] = ''x, Y ,x''" by simp
  have m: "map (\<lambda>f. lower (strip f)) [''x'', '' Y '', ''x''] = [''x'', ''y'', ''x'']" by code_simp
  have ne: "\<forall>v \<in> set [''x'', ''y'', ''x'']. v \<noteq> []" by simp
  from cvs_to_list_fields[of "''x, Y ,x''" "[''x'', '' Y '', ''x'']"] h j m
  have r: "cvs_to_list (Some ''x, Y ,x'') = [''x'', ''y'', ''x'']"
    and v: "\<forall>v \<in> set (cvs_to_list (Some ''x, Y ,x'')).
        (v \<noteq> [] \<longrightarrow> \<not> isspace (hd v) \<and> \<not> isspace (last v)) \<and> (\<forall>c \<in> set v. lower_char c = c)"
    by simp_all
  have la: "cvs_to_list (Some tags_latin1) = [[char_of (228::nat), CHR ''b''], ''z'']"
    by code_simp
  have ll: "length (cvs_to_list (Some tags_latin1)) = Suc (count_list tags_latin1 (CHR '',''))"
    using cvs_to_list_fields[of tags_latin1 "[]"] by blast
  have main: "[''x'', '' Y '', ''x''] \<noteq> [] \<and> list_all (\<lambda>f. CHR '','' \<notin> set f) [''x'', '' Y '', ''x'']
   \<and> cvs_to_list (Some ''x, Y ,x'') = [''x'', ''y'', ''x'']
   \<and> list_all (\<lambda>v. v \<noteq> [] \<and> \<not> isspace (hd v) \<and> \<not> isspace (last v))
         (cvs_to_list (Some ''x, Y ,x''))"
    using h r v ne by (simp add: list_all_iff)
  show ?thesis using main la ll by (intro conjI) (elim conjE, assumption)+
qed

section \<open>Grouping and sorting\<close>

lemma update_fresh: "k \<notin> fst ` set al \<Longrightarrow> AList.update k v al = al @ [(k, v)]"
  by (induction al) auto

lemma map_of_group_append:
  "map_of (group_append k v d) k' =
     (if k' = k then Some (group_items d k @ [v]) else map_of d k')"
  by (auto simp: group_append_def group_items_def update_conv' split: option.splits)

lemma keys_group_append: "fst ` set (group_append k v d) = insert k (fst ` set d)"
  by (auto simp: group_append_def dom_update split: option.splits)

lemma distinct_group_append:
  "distinct (map fst d) \<Longrightarrow> distinct (map fst (group_append k v d))"
  by (auto simp: group_append_def distinct_update split: option.splits)

lemma group_items_group_fold:
  "group_items (group_fold kvs d) k = group_items d k @ map snd (filter (\<lambda>kv. fst kv = k) kvs)"
proof (induction kvs arbitrary: d)
  case Nil then show ?case by (simp add: group_fold_def)
next
  case (Cons kv kvs)
  have "group_fold (kv # kvs) d = group_fold kvs (group_append (fst kv) (snd kv) d)"
    by (simp add: group_fold_def)
  then show ?case using Cons[of "group_append (fst kv) (snd kv) d"]
    by (auto simp: group_items_def map_of_group_append split: option.splits)
qed

lemma keys_group_fold: "fst ` set (group_fold kvs d) = fst ` set d \<union> fst ` set kvs"
proof (induction kvs arbitrary: d)
  case Nil then show ?case by (simp add: group_fold_def)
next
  case (Cons kv kvs)
  have "group_fold (kv # kvs) d = group_fold kvs (group_append (fst kv) (snd kv) d)"
    by (simp add: group_fold_def)
  then show ?case using Cons[of "group_append (fst kv) (snd kv) d"]
    by (auto simp: keys_group_append)
qed

lemma distinct_group_fold: "distinct (map fst d) \<Longrightarrow> distinct (map fst (group_fold kvs d))"
proof (induction kvs arbitrary: d)
  case Nil then show ?case by (simp add: group_fold_def)
next
  case (Cons kv kvs)
  have "group_fold (kv # kvs) d = group_fold kvs (group_append (fst kv) (snd kv) d)"
    by (simp add: group_fold_def)
  then show ?case using Cons by (simp add: distinct_group_append)
qed

lemma fold_keyed: "fold (\<lambda>x. group_append (key x) (val x)) xs d = group_fold (map (\<lambda>x. (key x, val x)) xs) d"
  by (simp add: group_fold_def fold_map comp_def)

lemma fold_tags:
  "fold (\<lambda>pr. fold (\<lambda>tag. group_append tag (make_item pr)) (tags (post_node (fst pr)))) zs d
     = group_fold (tag_pairs zs) d"
proof (induction zs arbitrary: d)
  case Nil then show ?case by (simp add: group_fold_def tag_pairs_def)
next
  case (Cons z zs)
  have "tag_pairs (z # zs) = map (\<lambda>tag. (tag, make_item z)) (tags (post_node (fst z))) @ tag_pairs zs"
    by (simp add: tag_pairs_def)
  then show ?case using Cons
    by (simp add: group_fold_def fold_map comp_def)
qed

lemma map_of_sort_groups: "map_of (sort_groups d) k = map_option (sorted_py item_time True) (map_of d k)"
  by (induction d) (auto simp: sort_groups_def)

lemma keys_sort_groups: "map fst (sort_groups d) = map fst d"
  by (induction d) (auto simp: sort_groups_def)

lemma sorted_py_descending: "descending key (sorted_py key True xs)"
proof -
  have "sorted (map key (sort_key key (rev xs)))" by simp
  then have "sorted_wrt (\<lambda>a b. key a \<le> key b) (sort_key key (rev xs))"
    by (simp add: sorted_map)
  then show ?thesis
    by (simp add: descending_def sorted_py_def sorted_wrt_rev)
qed

lemma sorted_py_stable:
  "filter (\<lambda>x. key x = t) (sorted_py key True xs) = filter (\<lambda>x. key x = t) xs"
proof -
  have "filter (\<lambda>x. key x = t) (rev (sort_key key (rev xs)))
          = rev (filter (\<lambda>x. key x = t) (sort_key key (rev xs)))"
    by (simp add: rev_filter)
  also have "\<dots> = rev (filter (\<lambda>x. key x = t) (rev xs))"
    by (simp only: sort_key_stable)
  also have "\<dots> = filter (\<lambda>x. key x = t) xs" by (simp add: rev_filter)
  finally show ?thesis by (simp add: sorted_py_def)
qed

lemma mset_sorted_py: "mset (sorted_py key r xs) = mset xs"
  by (simp add: sorted_py_def)

lemma references_of_ok:
  "list_all has_refid posts \<Longrightarrow>
     \<exists>refs. references_of g f posts = Inr refs \<and> length refs = length posts"
  by (induction posts) (auto simp: has_refid_def)

lemma make_references_ok:
  "all_posts e = Some posts \<Longrightarrow> list_all has_refid posts \<Longrightarrow>
     \<exists>refs. make_references g f e = Inr refs \<and> length refs = length posts"
  using references_of_ok[of posts g f] by (simp add: make_references_def)

lemma build_category_info_result:
  assumes "all_posts e = Some posts" and "make_references g f e = Inr refs"
  shows "\<exists>e1. build_category_info g f e
            = Inr (grouped (\<lambda>pr. category (post_node (fst pr))) (zip posts refs), e1)"
  using assms
  by (simp add: build_category_info_def grouped_def fold_keyed Let_def
           split: option.splits prod.splits)

lemma build_tag_info_result:
  assumes "all_posts e = Some posts" and "make_references g f e = Inr refs"
  shows "\<exists>e1. build_tag_info g f e = Inr (tag_grouped (zip posts refs), e1)"
  using assms
  by (simp add: build_tag_info_def tag_grouped_def fold_tags Let_def
           split: option.splits prod.splits)

lemma build_archive_info_result:
  assumes "all_posts e = Some posts" and "make_references g f e = Inr refs"
  shows "\<exists>e1. build_archive_info g f e
            = Inr (grouped (\<lambda>pr. year (post_node (fst pr))) (zip posts refs),
                   sorted_py flat_time True (map make_flat_item (zip posts refs)), e1)"
  using assms
  by (simp add: build_archive_info_def grouped_def fold_keyed Let_def
           split: option.splits prod.splits)

lemma sorted_py_Nil: "sorted_py key r [] = []"
  by (simp add: sorted_py_def)

lemma group_items_sort_groups:
  "group_items (sort_groups d) k = sorted_py item_time True (group_items d k)"
  by (simp add: group_items_def map_of_sort_groups sorted_py_Nil split: option.splits)

lemma group_items_Nil: "group_items [] k = []"
  by (simp add: group_items_def)

lemma group_items_grouped:
  "group_items (grouped key zs) k
     = sorted_py item_time True (map make_item (filter (\<lambda>pr. key pr = k) zs))"
  by (simp add: grouped_def group_items_sort_groups group_items_group_fold group_items_Nil
        filter_map comp_def)

lemma group_items_tag_grouped:
  "group_items (tag_grouped zs) k
     = sorted_py item_time True (map snd (filter (\<lambda>kv. fst kv = k) (tag_pairs zs)))"
  by (simp add: tag_grouped_def group_items_sort_groups group_items_group_fold group_items_Nil)

lemma distinct_keys_grouped: "distinct (map fst (grouped key zs))"
  by (simp add: grouped_def keys_sort_groups distinct_group_fold)

lemma distinct_keys_tag_grouped: "distinct (map fst (tag_grouped zs))"
  by (simp add: tag_grouped_def keys_sort_groups distinct_group_fold)

lemma item_time_make_item: "item_time (make_item pr) = post_time (fst pr)"
  by (simp add: make_item_def)

lemma flat_time_make_flat_item: "flat_time (make_flat_item pr) = post_time (fst pr)"
  by (simp add: make_flat_item_def)

lemma ties_grouped:
  "filter (\<lambda>i. item_time i = t) (group_items (grouped key zs) k)
     = map make_item (filter (\<lambda>pr. key pr = k \<and> post_time (fst pr) = t) zs)"
  by (simp add: group_items_grouped sorted_py_stable filter_map comp_def item_time_make_item
        conj_commute)

lemma ties_tag_grouped:
  "filter (\<lambda>i. item_time i = t) (group_items (tag_grouped zs) k)
     = map snd (filter (\<lambda>kv. fst kv = k \<and> item_time (snd kv) = t) (tag_pairs zs))"
  by (simp add: group_items_tag_grouped sorted_py_stable filter_map comp_def conj_commute)

lemma ties_flat:
  "filter (\<lambda>i. flat_time i = t) (sorted_py flat_time True (map make_flat_item zs))
     = map make_flat_item (filter (\<lambda>pr. post_time (fst pr) = t) zs)"
  by (simp add: sorted_py_stable filter_map comp_def flat_time_make_flat_item)

text \<open>
  C1: for a store whose targets are resolved, the three builders return, and in each of
  the by-category, by-tag and by-year dicts the list of every key is ordered newest
  first; the items of one time in it are the store's posts of that key and time in store
  order, so ties keep the insertion order. The flattened list is ordered newest first
  with the same treatment of ties. (\<open>group_items\<close> is the list of a key, empty for a
  key the dict does not have.)
\<close>

theorem groupings_newest_first_stable:
  assumes "all_posts e = Some posts" and "list_all has_refid posts"
  shows "\<exists>refs cats e1 tgs e2 archive archive_flat e3.
      make_references g f e = Inr refs \<and> length refs = length posts
    \<and> build_category_info g f e = Inr (cats, e1)
    \<and> build_tag_info g f e = Inr (tgs, e2)
    \<and> build_archive_info g f e = Inr (archive, archive_flat, e3)
    \<and> distinct (map fst cats) \<and> distinct (map fst tgs) \<and> distinct (map fst archive)
    \<and> (\<forall>k t. descending item_time (group_items cats k)
           \<and> filter (\<lambda>i. item_time i = t) (group_items cats k)
               = map make_item (filter (\<lambda>pr. category (post_node (fst pr)) = k
                                            \<and> post_time (fst pr) = t) (zip posts refs)))
    \<and> (\<forall>k t. descending item_time (group_items tgs k)
           \<and> filter (\<lambda>i. item_time i = t) (group_items tgs k)
               = map snd (filter (\<lambda>kv. fst kv = k \<and> item_time (snd kv) = t)
                                 (tag_pairs (zip posts refs))))
    \<and> (\<forall>k t. descending item_time (group_items archive k)
           \<and> filter (\<lambda>i. item_time i = t) (group_items archive k)
               = map make_item (filter (\<lambda>pr. year (post_node (fst pr)) = k
                                            \<and> post_time (fst pr) = t) (zip posts refs)))
    \<and> descending flat_time archive_flat
    \<and> (\<forall>t. filter (\<lambda>i. flat_time i = t) archive_flat
             = map make_flat_item (filter (\<lambda>pr. post_time (fst pr) = t) (zip posts refs)))"
proof -
  obtain refs where refs: "make_references g f e = Inr refs" "length refs = length posts"
    using make_references_ok[OF assms] by blast
  let ?zs = "zip posts refs"
  obtain e1 where c: "build_category_info g f e
      = Inr (grouped (\<lambda>pr. category (post_node (fst pr))) ?zs, e1)"
    using build_category_info_result[OF assms(1) refs(1)] by blast
  obtain e2 where t: "build_tag_info g f e = Inr (tag_grouped ?zs, e2)"
    using build_tag_info_result[OF assms(1) refs(1)] by blast
  obtain e3 where a: "build_archive_info g f e
      = Inr (grouped (\<lambda>pr. year (post_node (fst pr))) ?zs,
             sorted_py flat_time True (map make_flat_item ?zs), e3)"
    using build_archive_info_result[OF assms(1) refs(1)] by blast
  let ?cats = "grouped (\<lambda>pr. category (post_node (fst pr))) ?zs"
  let ?arch = "grouped (\<lambda>pr. year (post_node (fst pr))) ?zs"
  let ?flat = "sorted_py flat_time True (map make_flat_item ?zs)"
  have k1: "distinct (map fst ?cats)" by (rule distinct_keys_grouped)
  have k2: "distinct (map fst (tag_grouped ?zs))" by (rule distinct_keys_tag_grouped)
  have k3: "distinct (map fst ?arch)" by (rule distinct_keys_grouped)
  have g1: "\<forall>k t. descending item_time (group_items ?cats k)
           \<and> filter (\<lambda>i. item_time i = t) (group_items ?cats k)
               = map make_item (filter (\<lambda>pr. category (post_node (fst pr)) = k
                                            \<and> post_time (fst pr) = t) ?zs)"
    by (simp only: ties_grouped) (simp add: group_items_grouped sorted_py_descending)
  have g2: "\<forall>k t. descending item_time (group_items (tag_grouped ?zs) k)
           \<and> filter (\<lambda>i. item_time i = t) (group_items (tag_grouped ?zs) k)
               = map snd (filter (\<lambda>kv. fst kv = k \<and> item_time (snd kv) = t) (tag_pairs ?zs))"
    by (simp only: ties_tag_grouped) (simp add: group_items_tag_grouped sorted_py_descending)
  have g3: "\<forall>k t. descending item_time (group_items ?arch k)
           \<and> filter (\<lambda>i. item_time i = t) (group_items ?arch k)
               = map make_item (filter (\<lambda>pr. year (post_node (fst pr)) = k
                                            \<and> post_time (fst pr) = t) ?zs)"
    by (simp only: ties_grouped) (simp add: group_items_grouped sorted_py_descending)
  have f1: "descending flat_time ?flat" by (rule sorted_py_descending)
  have f2: "\<forall>t. filter (\<lambda>i. flat_time i = t) ?flat
             = map make_flat_item (filter (\<lambda>pr. post_time (fst pr) = t) ?zs)"
    by (simp only: ties_flat) simp
  show ?thesis
    by (rule exI[of _ refs], rule exI[of _ ?cats], rule exI[of _ e1],
        rule exI[of _ "tag_grouped ?zs"], rule exI[of _ e2], rule exI[of _ ?arch],
        rule exI[of _ ?flat], rule exI[of _ e3])
       (intro conjI refs c t a k1 k2 k3 g1 g2 g3 f1 f2)
qed

theorem groupings_newest_first_stable_witness:
  "all_posts store3 = Some posts3 \<and> list_all has_refid posts3
   \<and> descending flat_time (fst (snd (projr (build_archive_info uri0 ''posts/index'' store3))))
   \<and> descending item_time
        (group_items (fst (projr (build_tag_info uri0 ''posts/index'' store3))) ''y'')
   \<and> map (title \<circ> flat_post_node)
        (fst (snd (projr (build_archive_info uri0 ''posts/index'' store3)))) = [''C'', ''B'', ''A'']
   \<and> map (title \<circ> item_post_node)
        (group_items (fst (projr (build_tag_info uri0 ''posts/index'' store3))) ''y'')
       = [''B'', ''A'', ''A'']
   \<and> map (title \<circ> item_post_node)
        (group_items (fst (projr (build_archive_info uri0 ''posts/index'' store3))) 2018)
       = [''B'', ''A'']"
proof -
  have h1: "all_posts store3 = Some posts3" by (simp add: store3_def)
  have h2: "list_all has_refid posts3"
    by (simp add: posts3_def example_post_def has_refid_def)
  from groupings_newest_first_stable[OF h1 h2, of uri0 "''posts/index''"]
  obtain refs cats e1 tgs e2 archive archive_flat e3 where
    t: "build_tag_info uri0 ''posts/index'' store3 = Inr (tgs, e2)"
    and a: "build_archive_info uri0 ''posts/index'' store3 = Inr (archive, archive_flat, e3)"
    and dt: "\<forall>k t. descending item_time (group_items tgs k)
           \<and> filter (\<lambda>i. item_time i = t) (group_items tgs k)
               = map snd (filter (\<lambda>kv. fst kv = k \<and> item_time (snd kv) = t)
                                 (tag_pairs (zip posts3 refs)))"
    and df: "descending flat_time archive_flat"
    by blast
  have c1: "descending flat_time (fst (snd (projr (build_archive_info uri0 ''posts/index'' store3))))"
    using df a by simp
  have c2: "descending item_time
        (group_items (fst (projr (build_tag_info uri0 ''posts/index'' store3))) ''y'')"
    using dt t by simp
  have c3: "map (title \<circ> flat_post_node)
        (fst (snd (projr (build_archive_info uri0 ''posts/index'' store3)))) = [''C'', ''B'', ''A'']"
    by code_simp
  have c4: "map (title \<circ> item_post_node)
        (group_items (fst (projr (build_tag_info uri0 ''posts/index'' store3))) ''y'')
       = [''B'', ''A'', ''A'']"
    by code_simp
  have c5: "map (title \<circ> item_post_node)
        (group_items (fst (projr (build_archive_info uri0 ''posts/index'' store3))) 2018)
       = [''B'', ''A'']"
    by code_simp
  show ?thesis using h1 h2 c1 c2 c3 c4 c5 by (intro conjI)
qed

lemma count_list_map_filter:
  "(\<And>z. z \<in> set zs \<Longrightarrow> h z = x \<Longrightarrow> P z)
     \<Longrightarrow> count_list (map h (filter P zs)) x = count_list (map h zs) x"
  by (induction zs) auto

lemma make_item_eq_post_node: "make_item z = make_item pr \<Longrightarrow> post_node (fst z) = post_node (fst pr)"
  by (simp add: make_item_def)

lemma make_flat_item_eq: "make_flat_item z = make_flat_item pr \<Longrightarrow> make_item z = make_item pr"
  by (simp add: make_item_def make_flat_item_def)

lemma count_tag_pairs:
  "count_list (map snd (filter (\<lambda>kv. fst kv = k) (tag_pairs zs))) x
     = sum_list (map (\<lambda>z. if make_item z = x then count_list (tags (post_node (fst z))) k else 0) zs)"
proof (induction zs)
  case Nil then show ?case by (simp add: tag_pairs_def)
next
  case (Cons z zs)
  have one: "count_list (map snd (filter (\<lambda>kv. fst kv = k) (map (\<lambda>tag. (tag, v)) ts))) x
          = (if v = x then count_list ts k else 0)" for v ts
    by (induction ts) auto
  have "tag_pairs (z # zs) = map (\<lambda>tag. (tag, make_item z)) (tags (post_node (fst z))) @ tag_pairs zs"
    by (simp add: tag_pairs_def)
  then show ?case using Cons one by simp
qed

lemma sum_same_item:
  "sum_list (map (\<lambda>z. if make_item z = make_item pr then count_list (tags (post_node (fst z))) k else 0) zs)
     = count_list (tags (post_node (fst pr))) k * count_list (map make_item zs) (make_item pr)"
  by (induction zs) (auto dest: make_item_eq_post_node)

lemma count_flat_le:
  "count_list (map make_flat_item zs) (make_flat_item pr) \<le> count_list (map make_item zs) (make_item pr)"
  by (induction zs) (auto dest: make_flat_item_eq)

lemma count_list_pos: "x \<in> set xs \<Longrightarrow> 0 < count_list xs x"
  by (induction xs) auto

lemma count_list_sorted_py: "count_list (sorted_py key r xs) x = count_list xs x"
proof -
  have "count (mset (sorted_py key r xs)) x = count (mset xs) x"
    by (simp only: mset_sorted_py)
  then show ?thesis by (simp only: count_mset)
qed

text \<open>
  C4, as the code has it: for a store whose targets are resolved, the list of every
  category, of every year and of every tag is a rearrangement of the store's entries
  for that key, and the flattened list is a rearrangement of the whole store. So a post
  that is in the store once is exactly once in the list of its category, exactly once in
  the list of its year and exactly once in the flattened list; in the list of a tag it
  is as many times as its tag list holds that tag: once for a tag written once, not at
  all for a tag it does not have, and twice for a tag the directive wrote twice, since
  \<^verbatim>\<open>cvs_to_list\<close> keeps repeated values.
\<close>

theorem each_post_in_its_groups:
  assumes "all_posts e = Some posts" and "list_all has_refid posts"
  shows "\<exists>refs cats e1 tgs e2 archive archive_flat e3.
      make_references g f e = Inr refs \<and> length refs = length posts
    \<and> build_category_info g f e = Inr (cats, e1)
    \<and> build_tag_info g f e = Inr (tgs, e2)
    \<and> build_archive_info g f e = Inr (archive, archive_flat, e3)
    \<and> (\<forall>k. mset (group_items cats k)
             = mset (map make_item (filter (\<lambda>pr. category (post_node (fst pr)) = k) (zip posts refs))))
    \<and> (\<forall>k. mset (group_items archive k)
             = mset (map make_item (filter (\<lambda>pr. year (post_node (fst pr)) = k) (zip posts refs))))
    \<and> mset archive_flat = mset (map make_flat_item (zip posts refs))
    \<and> (\<forall>k. mset (group_items tgs k)
             = mset (map snd (filter (\<lambda>kv. fst kv = k) (tag_pairs (zip posts refs)))))
    \<and> (\<forall>pr. pr \<in> set (zip posts refs)
              \<and> count_list (map make_item (zip posts refs)) (make_item pr) = 1 \<longrightarrow>
           count_list (group_items cats (category (post_node (fst pr)))) (make_item pr) = 1
         \<and> count_list (group_items archive (year (post_node (fst pr)))) (make_item pr) = 1
         \<and> count_list archive_flat (make_flat_item pr) = 1
         \<and> (\<forall>k. count_list (group_items tgs k) (make_item pr)
                  = count_list (tags (post_node (fst pr))) k))"
proof -
  obtain refs where refs: "make_references g f e = Inr refs" "length refs = length posts"
    using make_references_ok[OF assms] by blast
  let ?zs = "zip posts refs"
  obtain e1 where c: "build_category_info g f e
      = Inr (grouped (\<lambda>pr. category (post_node (fst pr))) ?zs, e1)"
    using build_category_info_result[OF assms(1) refs(1)] by blast
  obtain e2 where t: "build_tag_info g f e = Inr (tag_grouped ?zs, e2)"
    using build_tag_info_result[OF assms(1) refs(1)] by blast
  obtain e3 where a: "build_archive_info g f e
      = Inr (grouped (\<lambda>pr. year (post_node (fst pr))) ?zs,
             sorted_py flat_time True (map make_flat_item ?zs), e3)"
    using build_archive_info_result[OF assms(1) refs(1)] by blast
  let ?cats = "grouped (\<lambda>pr. category (post_node (fst pr))) ?zs"
  let ?arch = "grouped (\<lambda>pr. year (post_node (fst pr))) ?zs"
  let ?flat = "sorted_py flat_time True (map make_flat_item ?zs)"
  have m1: "\<forall>k. mset (group_items ?cats k)
             = mset (map make_item (filter (\<lambda>pr. category (post_node (fst pr)) = k) ?zs))"
    by (simp add: group_items_grouped mset_sorted_py)
  have m2: "\<forall>k. mset (group_items ?arch k)
             = mset (map make_item (filter (\<lambda>pr. year (post_node (fst pr)) = k) ?zs))"
    by (simp add: group_items_grouped mset_sorted_py)
  have m3: "mset ?flat = mset (map make_flat_item ?zs)"
    by (simp add: mset_sorted_py)
  have m4: "\<forall>k. mset (group_items (tag_grouped ?zs) k)
             = mset (map snd (filter (\<lambda>kv. fst kv = k) (tag_pairs ?zs)))"
    by (simp add: group_items_tag_grouped mset_sorted_py)
  have once: "\<forall>pr. pr \<in> set ?zs \<and> count_list (map make_item ?zs) (make_item pr) = 1 \<longrightarrow>
           count_list (group_items ?cats (category (post_node (fst pr)))) (make_item pr) = 1
         \<and> count_list (group_items ?arch (year (post_node (fst pr)))) (make_item pr) = 1
         \<and> count_list ?flat (make_flat_item pr) = 1
         \<and> (\<forall>k. count_list (group_items (tag_grouped ?zs) k) (make_item pr)
                  = count_list (tags (post_node (fst pr))) k)"
  proof (intro allI impI)
    fix pr
    assume h: "pr \<in> set ?zs \<and> count_list (map make_item ?zs) (make_item pr) = 1"
    let ?x = "make_item pr"
    have one: "count_list (map make_item ?zs) ?x = 1" using h by (rule conjunct2)
    have mem: "pr \<in> set ?zs" using h by (rule conjunct1)
    have "count_list (group_items ?cats (category (post_node (fst pr)))) ?x
            = count_list (map make_item
                (filter (\<lambda>z. category (post_node (fst z)) = category (post_node (fst pr))) ?zs)) ?x"
      by (simp only: group_items_grouped count_list_sorted_py)
    also have "\<dots> = count_list (map make_item ?zs) ?x"
      by (rule count_list_map_filter) (drule make_item_eq_post_node, simp)
    finally have p1: "count_list (group_items ?cats (category (post_node (fst pr)))) ?x = 1"
      using one by simp
    have "count_list (group_items ?arch (year (post_node (fst pr)))) ?x
            = count_list (map make_item
                (filter (\<lambda>z. year (post_node (fst z)) = year (post_node (fst pr))) ?zs)) ?x"
      by (simp only: group_items_grouped count_list_sorted_py)
    also have "\<dots> = count_list (map make_item ?zs) ?x"
      by (rule count_list_map_filter) (drule make_item_eq_post_node, simp)
    finally have p2: "count_list (group_items ?arch (year (post_node (fst pr)))) ?x = 1"
      using one by simp
    have "make_flat_item pr \<in> set (map make_flat_item ?zs)" using mem by simp
    then have "0 < count_list (map make_flat_item ?zs) (make_flat_item pr)"
      by (rule count_list_pos)
    moreover have "count_list (map make_flat_item ?zs) (make_flat_item pr) \<le> 1"
      using count_flat_le[of ?zs pr] one by simp
    ultimately have "count_list (map make_flat_item ?zs) (make_flat_item pr) = 1" by simp
    then have p3: "count_list ?flat (make_flat_item pr) = 1"
      by (simp only: count_list_sorted_py)
    have p4: "\<forall>k. count_list (group_items (tag_grouped ?zs) k) ?x
                  = count_list (tags (post_node (fst pr))) k"
    proof
      fix k
      have "count_list (group_items (tag_grouped ?zs) k) ?x
              = count_list (map snd (filter (\<lambda>kv. fst kv = k) (tag_pairs ?zs))) ?x"
        by (simp only: group_items_tag_grouped count_list_sorted_py)
      also have "\<dots> = count_list (tags (post_node (fst pr))) k * count_list (map make_item ?zs) ?x"
        by (simp only: count_tag_pairs sum_same_item)
      finally show "count_list (group_items (tag_grouped ?zs) k) ?x
                  = count_list (tags (post_node (fst pr))) k"
        using one by simp
    qed
    show "count_list (group_items ?cats (category (post_node (fst pr)))) (make_item pr) = 1
         \<and> count_list (group_items ?arch (year (post_node (fst pr)))) (make_item pr) = 1
         \<and> count_list ?flat (make_flat_item pr) = 1
         \<and> (\<forall>k. count_list (group_items (tag_grouped ?zs) k) (make_item pr)
                  = count_list (tags (post_node (fst pr))) k)"
      using p1 p2 p3 p4 by (intro conjI)
  qed
  show ?thesis
    by (rule exI[of _ refs], rule exI[of _ ?cats], rule exI[of _ e1],
        rule exI[of _ "tag_grouped ?zs"], rule exI[of _ e2], rule exI[of _ ?arch],
        rule exI[of _ ?flat], rule exI[of _ e3])
       (intro conjI refs c t a m1 m2 m3 m4 once)
qed


lemma refs3_eq: "make_references uri0 ''posts/index'' store3 = Inr refs3"
  by code_simp

lemma post0_once:
  "(posts3 ! 0, refs3 ! 0) \<in> set (zip posts3 refs3)
   \<and> count_list (map make_item (zip posts3 refs3)) (make_item (posts3 ! 0, refs3 ! 0)) = 1"
  by code_simp

lemma post0_keys:
  "category (post_node (posts3 ! 0)) = ''b'' \<and> year (post_node (posts3 ! 0)) = 2018
   \<and> tags (post_node (posts3 ! 0)) = [''x'', ''y'']"
  by (simp add: posts3_def example_post_def example_node_def)

theorem each_post_in_its_groups_witness:
  "all_posts store3 = Some posts3 \<and> list_all has_refid posts3
   \<and> (posts3 ! 0, refs3 ! 0) \<in> set (zip posts3 refs3)
   \<and> count_list (map make_item (zip posts3 refs3)) (make_item (posts3 ! 0, refs3 ! 0)) = 1
   \<and> count_list
        (group_items (fst (projr (build_category_info uri0 ''posts/index'' store3))) ''b'')
        (make_item (posts3 ! 0, refs3 ! 0)) = 1
   \<and> count_list
        (group_items (fst (projr (build_archive_info uri0 ''posts/index'' store3))) 2018)
        (make_item (posts3 ! 0, refs3 ! 0)) = 1
   \<and> count_list (fst (snd (projr (build_archive_info uri0 ''posts/index'' store3))))
        (make_flat_item (posts3 ! 0, refs3 ! 0)) = 1
   \<and> count_list
        (group_items (fst (projr (build_tag_info uri0 ''posts/index'' store3))) ''x'')
        (make_item (posts3 ! 0, refs3 ! 0)) = 1"
proof -
  have h1: "all_posts store3 = Some posts3" by (simp add: store3_def)
  have h2: "list_all has_refid posts3"
    by (simp add: posts3_def example_post_def has_refid_def)
  let ?pr = "(posts3 ! 0, refs3 ! 0)"
  from each_post_in_its_groups[OF h1 h2, of uri0 "''posts/index''"]
  obtain refs cats e1 tgs e2 archive archive_flat e3 where
    r: "make_references uri0 ''posts/index'' store3 = Inr refs"
    and c: "build_category_info uri0 ''posts/index'' store3 = Inr (cats, e1)"
    and t: "build_tag_info uri0 ''posts/index'' store3 = Inr (tgs, e2)"
    and a: "build_archive_info uri0 ''posts/index'' store3 = Inr (archive, archive_flat, e3)"
    and once: "\<forall>pr. pr \<in> set (zip posts3 refs)
              \<and> count_list (map make_item (zip posts3 refs)) (make_item pr) = 1 \<longrightarrow>
           count_list (group_items cats (category (post_node (fst pr)))) (make_item pr) = 1
         \<and> count_list (group_items archive (year (post_node (fst pr)))) (make_item pr) = 1
         \<and> count_list archive_flat (make_flat_item pr) = 1
         \<and> (\<forall>k. count_list (group_items tgs k) (make_item pr)
                  = count_list (tags (post_node (fst pr))) k)"
    by blast
  have refs: "refs = refs3" using r refs3_eq by simp
  have hyp: "?pr \<in> set (zip posts3 refs)
              \<and> count_list (map make_item (zip posts3 refs)) (make_item ?pr) = 1"
    using post0_once refs by simp
  note at0 = once[THEN spec, of ?pr, THEN mp, OF hyp]
  have q1: "count_list (group_items cats ''b'') (make_item ?pr) = 1"
    using at0 post0_keys by simp
  have q2: "count_list (group_items archive 2018) (make_item ?pr) = 1"
    using at0 post0_keys by simp
  have q3: "count_list archive_flat (make_flat_item ?pr) = 1"
    using at0 by simp
  have "count_list (group_items tgs ''x'') (make_item ?pr) = count_list [''x'', ''y''] ''x''"
    using at0 post0_keys by simp
  then have q4: "count_list (group_items tgs ''x'') (make_item ?pr) = 1" by simp
  show ?thesis using h1 h2 post0_once q1 q2 q3 q4 c t a by simp
qed

theorem repeated_tag_counterexample:
  "posts3 ! 1 \<in> set posts3 \<and> count_list posts3 (posts3 ! 1) = 1
   \<and> ''y'' \<in> set (tags (post_node (posts3 ! 1)))
   \<and> count_list
        (group_items (fst (projr (build_tag_info uri0 ''posts/index'' store3))) ''y'')
        (make_item (posts3 ! 1, refs3 ! 1)) = 2"
  by code_simp


section \<open>Identifiers\<close>

lemma issued_Cons:
  "issued kind n (k # ks) = (k, kind @ ''-'' @ show_nat n) # issued kind (Suc n) ks"
proof -
  have "[0..<length (k # ks)] = 0 # map Suc [0..<length ks]"
    by (simp add: upt_conv_Cons map_Suc_upt del: upt_Suc)
  then show ?thesis by (simp add: issued_def comp_def del: upt_Suc)
qed

lemma issued_Nil: "issued kind n [] = []"
  by (simp add: issued_def)

lemma assign_ids_fresh:
  "distinct ks \<Longrightarrow> set ks \<inter> fst ` set id_dict = {} \<Longrightarrow>
     assign_ids kind ks id_dict e
       = (id_dict @ issued kind (serialno e kind) ks,
          e\<lparr>serialno := (serialno e)(kind := serialno e kind + length ks)\<rparr>)"
proof (induction ks arbitrary: id_dict e)
  case Nil
  then show ?case by (simp add: issued_Nil)
next
  case (Cons k ks)
  let ?v = "kind @ ''-'' @ show_nat (serialno e kind)"
  let ?e = "e\<lparr>serialno := (serialno e)(kind := Suc (serialno e kind))\<rparr>"
  have fresh: "AList.update k ?v id_dict = id_dict @ [(k, ?v)]"
    using Cons.prems by (intro update_fresh) auto
  have d: "distinct ks" and i: "set ks \<inter> fst ` set (id_dict @ [(k, ?v)]) = {}"
    using Cons.prems by auto
  have "assign_ids kind (k # ks) id_dict e = assign_ids kind ks (id_dict @ [(k, ?v)]) ?e"
    using fresh by (simp add: new_serialno_def)
  also have "\<dots> = ((id_dict @ [(k, ?v)]) @ issued kind (serialno ?e kind) ks,
          ?e\<lparr>serialno := (serialno ?e)(kind := serialno ?e kind + length ks)\<rparr>)"
    by (rule Cons.IH[OF d i])
  finally have step: "assign_ids kind (k # ks) id_dict e
      = ((id_dict @ [(k, ?v)]) @ issued kind (serialno ?e kind) ks,
          ?e\<lparr>serialno := (serialno ?e)(kind := serialno ?e kind + length ks)\<rparr>)" .
  have e_eq: "?e\<lparr>serialno := (serialno ?e)(kind := serialno ?e kind + length ks)\<rparr>
                = e\<lparr>serialno := (serialno e)(kind := serialno e kind + length (k # ks))\<rparr>"
    by simp
  have l_eq: "(id_dict @ [(k, ?v)]) @ issued kind (serialno ?e kind) ks
                = id_dict @ issued kind (serialno e kind) (k # ks)"
    by (simp add: issued_Cons)
  show ?case by (simp only: step e_eq l_eq)
qed

lemma sort_distinct: "distinct xs \<Longrightarrow> sort xs = sorted_list_of_set (set xs)"
  by (simp add: sorted_list_of_set_sort_remdups distinct_remdups_id)

lemma assign_ids_sorted:
  "distinct ks \<Longrightarrow>
     assign_ids kind (sort ks) [] e
       = (issued kind (serialno e kind) (sorted_list_of_set (set ks)),
          e\<lparr>serialno := (serialno e)(kind := serialno e kind + length ks)\<rparr>)"
proof -
  assume d: "distinct ks"
  have "assign_ids kind (sort ks) [] e
       = ([] @ issued kind (serialno e kind) (sort ks),
          e\<lparr>serialno := (serialno e)(kind := serialno e kind + length (sort ks))\<rparr>)"
    using d by (intro assign_ids_fresh) simp_all
  then show ?thesis using d by (simp add: sort_distinct distinct_card)
qed

lemma keys_grouped:
  "length refs = length posts \<Longrightarrow>
     set (map fst (grouped (\<lambda>pr. key (post_node (fst pr))) (zip posts refs)))
       = set (map (\<lambda>p. key (post_node p)) posts)"
proof -
  assume l: "length refs = length posts"
  have "fst ` set (zip posts refs) = set posts"
    using l by (metis map_fst_zip set_map)
  then have "(\<lambda>pr. key (post_node (fst pr))) ` set (zip posts refs) = (\<lambda>p. key (post_node p)) ` set posts"
    by (metis image_image)
  then show ?thesis
    by (simp add: grouped_def keys_sort_groups keys_group_fold image_image)
qed

lemma keys_tag_grouped:
  "length refs = length posts \<Longrightarrow>
     set (map fst (tag_grouped (zip posts refs)))
       = set (concat (map (\<lambda>p. tags (post_node p)) posts))"
proof -
  assume l: "length refs = length posts"
  have "map (\<lambda>pr. tags (post_node (fst pr))) (zip posts refs)
          = map (\<lambda>p. tags (post_node p)) (map fst (zip posts refs))"
    by (simp add: comp_def)
  then have m: "map (\<lambda>pr. tags (post_node (fst pr))) (zip posts refs)
          = map (\<lambda>p. tags (post_node p)) posts"
    using l by simp
  have "fst ` set (tag_pairs zs) = set (concat (map (\<lambda>pr. tags (post_node (fst pr))) zs))" for zs
    by (induction zs) (auto simp: tag_pairs_def image_Un image_image)
  then have "fst ` set (tag_pairs (zip posts refs))
               = set (concat (map (\<lambda>p. tags (post_node p)) posts))"
    by (simp only: m)
  then show ?thesis
    by (simp add: tag_grouped_def keys_sort_groups keys_group_fold del: set_concat)
qed

lemma build_category_info_env:
  assumes "all_posts e = Some posts" and "make_references g f e = Inr refs"
  shows "build_category_info g f e
           = Inr (grouped (\<lambda>pr. category (post_node (fst pr))) (zip posts refs),
                  (case category_id e of
                     Some _ \<Rightarrow> e
                   | None \<Rightarrow>
                       (snd (assign_ids ''category''
                          (sort (map fst (grouped (\<lambda>pr. category (post_node (fst pr))) (zip posts refs)))) [] e))
                       \<lparr>category_id := Some (fst (assign_ids ''category''
                          (sort (map fst (grouped (\<lambda>pr. category (post_node (fst pr))) (zip posts refs)))) [] e))\<rparr>))"
  using assms
  by (simp add: build_category_info_def grouped_def fold_keyed Let_def
           split: option.splits prod.splits)

lemma build_tag_info_env:
  assumes "all_posts e = Some posts" and "make_references g f e = Inr refs"
  shows "build_tag_info g f e
           = Inr (tag_grouped (zip posts refs),
                  (case tag_id e of
                     Some _ \<Rightarrow> e
                   | None \<Rightarrow>
                       (snd (assign_ids ''tag'' (sort (map fst (tag_grouped (zip posts refs)))) [] e))
                       \<lparr>tag_id := Some (fst (assign_ids ''tag''
                          (sort (map fst (tag_grouped (zip posts refs)))) [] e))\<rparr>))"
  using assms
  by (simp add: build_tag_info_def tag_grouped_def fold_tags Let_def
           split: option.splits prod.splits)

lemma build_archive_info_env:
  assumes "all_posts e = Some posts" and "make_references g f e = Inr refs"
  shows "build_archive_info g f e
           = Inr (grouped (\<lambda>pr. year (post_node (fst pr))) (zip posts refs),
                  sorted_py flat_time True (map make_flat_item (zip posts refs)),
                  (case archive_id e of
                     Some _ \<Rightarrow> e
                   | None \<Rightarrow>
                       (snd (assign_ids ''year''
                          (sort (map fst (grouped (\<lambda>pr. year (post_node (fst pr))) (zip posts refs)))) [] e))
                       \<lparr>archive_id := Some (fst (assign_ids ''year''
                          (sort (map fst (grouped (\<lambda>pr. year (post_node (fst pr))) (zip posts refs)))) [] e))\<rparr>))"
  using assms
  by (simp add: build_archive_info_def grouped_def fold_keyed Let_def
           split: option.splits prod.splits)


text \<open>
  C5: when a kind has no identifiers yet, the builder issues them to the keys in
  ascending order, with consecutive values of the kind's counter starting at its
  current value, and advances the counter by the number of keys. The keys enter as a
  set, so the order in which the store holds them does not matter: for the categories
  b, a, c in store order the identifiers go to a, b, c (\<open>category-0\<close>, \<open>category-1\<close>,
  \<open>category-2\<close> from a fresh counter).
\<close>

theorem first_identifier_assignment:
  assumes "all_posts e = Some posts" and "list_all has_refid posts"
  shows
   "(category_id e = None \<longrightarrow>
       (\<exists>cats e1. build_category_info g f e = Inr (cats, e1)
          \<and> category_id e1 = Some (issued ''category'' (serialno e ''category'')
               (sorted_list_of_set (set (map (\<lambda>p. category (post_node p)) posts))))
          \<and> serialno e1 ''category'' = serialno e ''category''
               + card (set (map (\<lambda>p. category (post_node p)) posts))))
    \<and> (tag_id e = None \<longrightarrow>
       (\<exists>tgs e1. build_tag_info g f e = Inr (tgs, e1)
          \<and> tag_id e1 = Some (issued ''tag'' (serialno e ''tag'')
               (sorted_list_of_set (set (concat (map (\<lambda>p. tags (post_node p)) posts)))))
          \<and> serialno e1 ''tag'' = serialno e ''tag''
               + card (set (concat (map (\<lambda>p. tags (post_node p)) posts)))))
    \<and> (archive_id e = None \<longrightarrow>
       (\<exists>archive archive_flat e1. build_archive_info g f e = Inr (archive, archive_flat, e1)
          \<and> archive_id e1 = Some (issued ''year'' (serialno e ''year'')
               (sorted_list_of_set (set (map (\<lambda>p. year (post_node p)) posts))))
          \<and> serialno e1 ''year'' = serialno e ''year''
               + card (set (map (\<lambda>p. year (post_node p)) posts))))"
proof -
  obtain refs where refs: "make_references g f e = Inr refs" "length refs = length posts"
    using make_references_ok[OF assms] by blast
  let ?zs = "zip posts refs"
  let ?cats = "grouped (\<lambda>pr. category (post_node (fst pr))) ?zs"
  let ?arch = "grouped (\<lambda>pr. year (post_node (fst pr))) ?zs"
  have kc: "set (map fst ?cats) = set (map (\<lambda>p. category (post_node p)) posts)"
    using refs(2) by (rule keys_grouped)
  have ka: "set (map fst ?arch) = set (map (\<lambda>p. year (post_node p)) posts)"
    using refs(2) by (rule keys_grouped)
  have kt: "set (map fst (tag_grouped ?zs)) = set (concat (map (\<lambda>p. tags (post_node p)) posts))"
    using refs(2) by (rule keys_tag_grouped)
  have lc: "length (map fst ?cats) = card (set (map (\<lambda>p. category (post_node p)) posts))"
    using distinct_card[OF distinct_keys_grouped, of "\<lambda>pr. category (post_node (fst pr))" ?zs] kc
    by simp
  have la: "length (map fst ?arch) = card (set (map (\<lambda>p. year (post_node p)) posts))"
    using distinct_card[OF distinct_keys_grouped, of "\<lambda>pr. year (post_node (fst pr))" ?zs] ka
    by simp
  have lt: "length (map fst (tag_grouped ?zs))
              = card (set (concat (map (\<lambda>p. tags (post_node p)) posts)))"
    using distinct_card[OF distinct_keys_tag_grouped, of ?zs] kt by simp
  have c: "category_id e = None \<longrightarrow>
       (\<exists>cats e1. build_category_info g f e = Inr (cats, e1)
          \<and> category_id e1 = Some (issued ''category'' (serialno e ''category'')
               (sorted_list_of_set (set (map (\<lambda>p. category (post_node p)) posts))))
          \<and> serialno e1 ''category'' = serialno e ''category''
               + card (set (map (\<lambda>p. category (post_node p)) posts)))"
  proof
    assume n: "category_id e = None"
    show "\<exists>cats e1. build_category_info g f e = Inr (cats, e1)
          \<and> category_id e1 = Some (issued ''category'' (serialno e ''category'')
               (sorted_list_of_set (set (map (\<lambda>p. category (post_node p)) posts))))
          \<and> serialno e1 ''category'' = serialno e ''category''
               + card (set (map (\<lambda>p. category (post_node p)) posts))"
      unfolding build_category_info_env[OF assms(1) refs(1)] n
        assign_ids_sorted[OF distinct_keys_grouped] kc lc
      by simp
  qed
  have t: "tag_id e = None \<longrightarrow>
       (\<exists>tgs e1. build_tag_info g f e = Inr (tgs, e1)
          \<and> tag_id e1 = Some (issued ''tag'' (serialno e ''tag'')
               (sorted_list_of_set (set (concat (map (\<lambda>p. tags (post_node p)) posts)))))
          \<and> serialno e1 ''tag'' = serialno e ''tag''
               + card (set (concat (map (\<lambda>p. tags (post_node p)) posts))))"
  proof
    assume n: "tag_id e = None"
    show "\<exists>tgs e1. build_tag_info g f e = Inr (tgs, e1)
          \<and> tag_id e1 = Some (issued ''tag'' (serialno e ''tag'')
               (sorted_list_of_set (set (concat (map (\<lambda>p. tags (post_node p)) posts)))))
          \<and> serialno e1 ''tag'' = serialno e ''tag''
               + card (set (concat (map (\<lambda>p. tags (post_node p)) posts)))"
      unfolding build_tag_info_env[OF assms(1) refs(1)] n
        assign_ids_sorted[OF distinct_keys_tag_grouped] kt lt
      by simp
  qed
  have a: "archive_id e = None \<longrightarrow>
       (\<exists>archive archive_flat e1. build_archive_info g f e = Inr (archive, archive_flat, e1)
          \<and> archive_id e1 = Some (issued ''year'' (serialno e ''year'')
               (sorted_list_of_set (set (map (\<lambda>p. year (post_node p)) posts))))
          \<and> serialno e1 ''year'' = serialno e ''year''
               + card (set (map (\<lambda>p. year (post_node p)) posts)))"
  proof
    assume n: "archive_id e = None"
    show "\<exists>archive archive_flat e1. build_archive_info g f e = Inr (archive, archive_flat, e1)
          \<and> archive_id e1 = Some (issued ''year'' (serialno e ''year'')
               (sorted_list_of_set (set (map (\<lambda>p. year (post_node p)) posts))))
          \<and> serialno e1 ''year'' = serialno e ''year''
               + card (set (map (\<lambda>p. year (post_node p)) posts))"
      unfolding build_archive_info_env[OF assms(1) refs(1)] n
        assign_ids_sorted[OF distinct_keys_grouped] ka la
      by simp
  qed
  show ?thesis using c t a by (intro conjI)
qed

text \<open>
  C6, as the code has it: when identifiers exist for a kind, a later call of the kind's
  builder returns its grouping and leaves the environment as it was: the identifiers are
  reused unchanged, the counter does not move, and a key that was not there at the first
  call gets no identifier.
\<close>

theorem identifiers_computed_once:
  assumes "all_posts e = Some posts" and "list_all has_refid posts"
  shows
   "(category_id e \<noteq> None \<longrightarrow> (\<exists>cats. build_category_info g f e = Inr (cats, e)))
    \<and> (tag_id e \<noteq> None \<longrightarrow> (\<exists>tgs. build_tag_info g f e = Inr (tgs, e)))
    \<and> (archive_id e \<noteq> None \<longrightarrow>
          (\<exists>archive archive_flat. build_archive_info g f e = Inr (archive, archive_flat, e)))"
proof -
  obtain refs where refs: "make_references g f e = Inr refs" "length refs = length posts"
    using make_references_ok[OF assms] by blast
  show ?thesis
    unfolding build_category_info_env[OF assms(1) refs(1)]
      build_tag_info_env[OF assms(1) refs(1)] build_archive_info_env[OF assms(1) refs(1)]
    by auto
qed


theorem first_identifier_assignment_witness:
  "all_posts store3 = Some posts3 \<and> list_all has_refid posts3
   \<and> category_id store3 = None \<and> tag_id store3 = None \<and> archive_id store3 = None
   \<and> map (\<lambda>p. category (post_node p)) posts3 = [''b'', ''a'', ''c'']
   \<and> category_id (snd (projr (build_category_info uri0 ''posts/index'' store3)))
       = Some [(''a'', ''category-0''), (''b'', ''category-1''), (''c'', ''category-2'')]
   \<and> tag_id (snd (projr (build_tag_info uri0 ''posts/index'' store3)))
       = Some [(''x'', ''tag-0''), (''y'', ''tag-1''), (''z'', ''tag-2'')]
   \<and> archive_id (snd (snd (projr (build_archive_info uri0 ''posts/index'' store3))))
       = Some [(2018, ''year-0''), (2019, ''year-1'')]
   \<and> serialno (snd (projr (build_category_info uri0 ''posts/index'' store3))) ''category'' = 3"
proof -
  have h1: "all_posts store3 = Some posts3" by (simp add: store3_def)
  have h2: "list_all has_refid posts3"
    by (simp add: posts3_def example_post_def has_refid_def)
  have n: "category_id store3 = None \<and> tag_id store3 = None \<and> archive_id store3 = None"
    by (simp add: store3_def env0_def)
  have k: "map (\<lambda>p. category (post_node p)) posts3 = [''b'', ''a'', ''c'']"
    by (simp add: posts3_def example_post_def example_node_def)
  note T = first_identifier_assignment[OF h1 h2, of uri0 "''posts/index''"]
  have v1: "issued ''category'' (serialno store3 ''category'')
               (sorted_list_of_set (set (map (\<lambda>p. category (post_node p)) posts3)))
            = [(''a'', ''category-0''), (''b'', ''category-1''), (''c'', ''category-2'')]"
    by code_simp
  have v2: "issued ''tag'' (serialno store3 ''tag'')
               (sorted_list_of_set (set (concat (map (\<lambda>p. tags (post_node p)) posts3))))
            = [(''x'', ''tag-0''), (''y'', ''tag-1''), (''z'', ''tag-2'')]"
    by code_simp
  have v3: "issued ''year'' (serialno store3 ''year'')
               (sorted_list_of_set (set (map (\<lambda>p. year (post_node p)) posts3)))
            = [(2018, ''year-0''), (2019, ''year-1'')]"
    by code_simp
  have v4: "serialno store3 ''category''
               + card (set (map (\<lambda>p. category (post_node p)) posts3)) = 3"
    by code_simp
  from T n v1 v4 have c: "category_id (snd (projr (build_category_info uri0 ''posts/index'' store3)))
       = Some [(''a'', ''category-0''), (''b'', ''category-1''), (''c'', ''category-2'')]
     \<and> serialno (snd (projr (build_category_info uri0 ''posts/index'' store3))) ''category'' = 3"
    by auto
  from T n v2 have t: "tag_id (snd (projr (build_tag_info uri0 ''posts/index'' store3)))
       = Some [(''x'', ''tag-0''), (''y'', ''tag-1''), (''z'', ''tag-2'')]"
    by auto
  from T n v3 have a: "archive_id (snd (snd (projr (build_archive_info uri0 ''posts/index'' store3))))
       = Some [(2018, ''year-0''), (2019, ''year-1'')]"
    by auto
  show ?thesis using h1 h2 n k c t a by (intro conjI) simp_all
qed

theorem identifiers_computed_once_witness:
  "all_posts env2 = Some posts3 \<and> list_all has_refid posts3
   \<and> category_id env2 \<noteq> None \<and> tag_id env2 \<noteq> None \<and> archive_id env2 \<noteq> None
   \<and> snd (projr (build_category_info uri0 ''posts/index'' env2)) = env2
   \<and> snd (projr (build_tag_info uri0 ''posts/index'' env2)) = env2
   \<and> snd (snd (projr (build_archive_info uri0 ''posts/index'' env2))) = env2"
proof -
  have h1: "all_posts env2 = Some posts3" by (simp add: env2_def)
  have h2: "list_all has_refid posts3"
    by (simp add: posts3_def example_post_def has_refid_def)
  have n: "category_id env2 \<noteq> None \<and> tag_id env2 \<noteq> None \<and> archive_id env2 \<noteq> None"
    by (simp add: env2_def)
  note T = identifiers_computed_once[OF h1 h2, of uri0 "''posts/index''"]
  from T n have c: "snd (projr (build_category_info uri0 ''posts/index'' env2)) = env2" by auto
  from T n have t: "snd (projr (build_tag_info uri0 ''posts/index'' env2)) = env2" by auto
  from T n have a: "snd (snd (projr (build_archive_info uri0 ''posts/index'' env2))) = env2"
    by auto
  show ?thesis using h1 h2 n c t a by (intro conjI) simp_all
qed

theorem new_keys_get_no_identifier_counterexample:
  "category_id env2 = Some [(''b'', ''category-0'')]
   \<and> map fst (fst (projr (build_category_info uri0 ''posts/index'' env2))) = [''b'', ''a'', ''c'']
   \<and> category_id (snd (projr (build_category_info uri0 ''posts/index'' env2)))
        = Some [(''b'', ''category-0'')]
   \<and> map_of (the (category_id (snd (projr (build_category_info uri0 ''posts/index'' env2))))) ''a''
        = None"
  by code_simp

lemma env2_after_first_build:
  "category_id (snd (projr (build_category_info uri0 ''posts/index'' store1))) = category_id env2
   \<and> tag_id (snd (projr (build_tag_info uri0 ''posts/index'' store1))) = tag_id env2
   \<and> archive_id (snd (snd (projr (build_archive_info uri0 ''posts/index'' store1))))
        = archive_id env2
   \<and> serialno (snd (projr (build_category_info uri0 ''posts/index'' store1))) ''category''
        = serialno env2 ''category''
   \<and> serialno (snd (projr (build_tag_info uri0 ''posts/index'' store1))) ''tag''
        = serialno env2 ''tag''
   \<and> serialno (snd (snd (projr (build_archive_info uri0 ''posts/index'' store1)))) ''year''
        = serialno env2 ''year''"
  by code_simp


section \<open>Navigation\<close>

lemma node_time_set_links [simp]: "node_time (set_links L g fl i node) = node_time node"
  by (simp add: set_links_def Let_def)

lemma node_docname_set_links [simp]: "node_docname (set_links L g fl i node) = node_docname node"
  by (simp add: set_links_def Let_def)

lemma set_links_overwrites:
  "set_links L g fl i (set_links L g fl j node) = set_links L g fl i node"
  by (simp add: set_links_def Let_def)

lemma set_links_in_range:
  assumes "i < length fl"
  shows "nat (idx_prev_of fl i) < length fl \<and> nat (idx_next_of fl i) < length fl
         \<and> 0 \<le> idx_prev_of fl i \<and> 0 \<le> idx_next_of fl i"
  using assms by (auto simp: idx_prev_of_def idx_next_of_def Let_def)

lemma matches_snoc:
  "filter (\<lambda>i. flat_time ((xs @ [x]) ! i) = t) [0..<length (xs @ [x])]
     = filter (\<lambda>i. flat_time (xs ! i) = t) [0..<length xs]
       @ (if flat_time x = t then [length xs] else [])"
proof -
  have "filter (\<lambda>i. flat_time ((xs @ [x]) ! i) = t) [0..<length xs]
          = filter (\<lambda>i. flat_time (xs ! i) = t) [0..<length xs]"
    by (rule filter_cong) (auto simp: nth_append)
  then show ?thesis by simp
qed

lemma fold_link_step:
  "fold (link_step L g fl) (enumerate 0 xs) node
     = (if filter (\<lambda>i. flat_time (xs ! i) = node_time node) [0..<length xs] = [] then node
        else set_links L g fl
               (last (filter (\<lambda>i. flat_time (xs ! i) = node_time node) [0..<length xs])) node)"
proof (induction xs rule: rev_induct)
  case Nil
  then show ?case by simp
next
  case (snoc x xs)
  let ?m = "filter (\<lambda>i. flat_time (xs ! i) = node_time node) [0..<length xs]"
  let ?r = "fold (link_step L g fl) (enumerate 0 xs) node"
  have t: "node_time ?r = node_time node" using snoc.IH by simp
  have "fold (link_step L g fl) (enumerate 0 (xs @ [x])) node
          = link_step L g fl (length xs, x) ?r"
    by (simp add: enumerate_append_eq)
  also have "\<dots> = (if node_time node = flat_time x then set_links L g fl (length xs) ?r else ?r)"
    using t by (simp add: link_step_def)
  also have "\<dots> = (if node_time node = flat_time x then set_links L g fl (length xs) node else ?r)"
    using snoc.IH by (simp add: set_links_overwrites)
  finally have step: "fold (link_step L g fl) (enumerate 0 (xs @ [x])) node
      = (if node_time node = flat_time x then set_links L g fl (length xs) node else ?r)" .
  show ?case
    unfolding step matches_snoc using snoc.IH by auto
qed

lemma add_next_prev_fold:
  "add_next_prev L g node fl = fold (link_step L g fl) (enumerate 0 fl) node"
  by (simp add: add_next_prev_def link_step_def)

lemma add_next_prev_last:
  "add_next_prev L g node fl
     = (if matches node fl = [] then node else set_links L g fl (last (matches node fl)) node)"
  by (simp only: add_next_prev_fold fold_link_step matches_def)


lemma sorted_le_last: "sorted xs \<Longrightarrow> x \<in> set xs \<Longrightarrow> x \<le> last xs"
  by (induction xs) auto

text \<open>
  C2, as the code has it: \<^verbatim>\<open>add_next_prev\<close> finds the node's place by equality of the
  times alone, and since its loop does not stop at a match, the links it leaves are the
  ones computed at the last item of the flattened list that has the node's time; a node
  whose time is not in the list is left unchanged. Two nodes with the same time match
  the same items, so both get the links of that last occurrence.
\<close>

theorem links_from_last_match:
  "add_next_prev L g node archive_flat
     = (if matches node archive_flat = [] then node
        else set_links L g archive_flat (last (matches node archive_flat)) node)
   \<and> (node_time other = node_time node \<longrightarrow> matches other archive_flat = matches node archive_flat)
   \<and> (matches node archive_flat \<noteq> [] \<longrightarrow>
         last (matches node archive_flat) < length archive_flat
       \<and> flat_time (archive_flat ! last (matches node archive_flat)) = node_time node
       \<and> (\<forall>j. last (matches node archive_flat) < j \<and> j < length archive_flat
              \<longrightarrow> flat_time (archive_flat ! j) \<noteq> node_time node))"
proof (intro conjI impI allI)
  show "add_next_prev L g node archive_flat
     = (if matches node archive_flat = [] then node
        else set_links L g archive_flat (last (matches node archive_flat)) node)"
    by (rule add_next_prev_last)
next
  assume "node_time other = node_time node"
  then show "matches other archive_flat = matches node archive_flat"
    by (simp add: matches_def)
next
  assume ne: "matches node archive_flat \<noteq> []"
  then have "last (matches node archive_flat) \<in> set (matches node archive_flat)"
    by (rule last_in_set)
  then show "last (matches node archive_flat) < length archive_flat"
    and "flat_time (archive_flat ! last (matches node archive_flat)) = node_time node"
    by (simp_all add: matches_def)
next
  fix j
  assume ne: "matches node archive_flat \<noteq> []"
    and j: "last (matches node archive_flat) < j \<and> j < length archive_flat"
  show "flat_time (archive_flat ! j) \<noteq> node_time node"
  proof
    assume "flat_time (archive_flat ! j) = node_time node"
    then have mem: "j \<in> set (matches node archive_flat)" using j by (simp add: matches_def)
    have "sorted (matches node archive_flat)"
      by (simp add: matches_def sorted_wrt_filter)
    from this mem have "j \<le> last (matches node archive_flat)"
      by (rule sorted_le_last)
    then show False using j by simp
  qed
qed

text \<open>
  C3: for a flattened list of three posts with decreasing times, P1, P2, P3, a node with
  the time of P1 gets a next link to P3 with the oldest label (and a previous link to P2
  with the plain label), a node with the time of P3 gets a previous link to P1 with the
  newest label (and a next link to P2 with the plain label), and a node with the time of
  P2 gets previous P3 and next P1 with the plain labels. The labels are those of either
  copy of the function.
\<close>

theorem wraparound_three_posts:
  assumes "flat_time p2 < flat_time p1" and "flat_time p3 < flat_time p2"
  shows
   "(node_time node = flat_time p1 \<longrightarrow>
        node_next (add_next_prev L g node [p1, p2, p3]) = Some (g (node_docname node) (flat_docname p3))
      \<and> next_text (add_next_prev L g node [p1, p2, p3]) = Some (oldest_label L)
      \<and> node_prev (add_next_prev L g node [p1, p2, p3]) = Some (g (node_docname node) (flat_docname p2))
      \<and> prev_text (add_next_prev L g node [p1, p2, p3]) = Some (previous_label L))
    \<and> (node_time node = flat_time p2 \<longrightarrow>
        node_prev (add_next_prev L g node [p1, p2, p3]) = Some (g (node_docname node) (flat_docname p3))
      \<and> prev_text (add_next_prev L g node [p1, p2, p3]) = Some (previous_label L)
      \<and> node_next (add_next_prev L g node [p1, p2, p3]) = Some (g (node_docname node) (flat_docname p1))
      \<and> next_text (add_next_prev L g node [p1, p2, p3]) = Some (next_label L))
    \<and> (node_time node = flat_time p3 \<longrightarrow>
        node_prev (add_next_prev L g node [p1, p2, p3]) = Some (g (node_docname node) (flat_docname p1))
      \<and> prev_text (add_next_prev L g node [p1, p2, p3]) = Some (newest_label L)
      \<and> node_next (add_next_prev L g node [p1, p2, p3]) = Some (g (node_docname node) (flat_docname p2))
      \<and> next_text (add_next_prev L g node [p1, p2, p3]) = Some (next_label L))"
proof -
  have d: "flat_time p1 \<noteq> flat_time p2" "flat_time p2 \<noteq> flat_time p3" "flat_time p1 \<noteq> flat_time p3"
    using assms by auto
  have u: "[0..<length [p1, p2, p3]] = [0, Suc 0, Suc (Suc 0)]" by simp
  have m1: "node_time node = flat_time p1 \<Longrightarrow> matches node [p1, p2, p3] = [0]"
    using d unfolding matches_def u by simp
  have m2: "node_time node = flat_time p2 \<Longrightarrow> matches node [p1, p2, p3] = [Suc 0]"
    using d unfolding matches_def u by simp
  have m3: "node_time node = flat_time p3 \<Longrightarrow> matches node [p1, p2, p3] = [Suc (Suc 0)]"
    using d unfolding matches_def u by simp
  have r1: "node_time node = flat_time p1 \<Longrightarrow>
      add_next_prev L g node [p1, p2, p3] = set_links L g [p1, p2, p3] 0 node"
    by (simp add: add_next_prev_last m1)
  have r2: "node_time node = flat_time p2 \<Longrightarrow>
      add_next_prev L g node [p1, p2, p3] = set_links L g [p1, p2, p3] (Suc 0) node"
    by (simp add: add_next_prev_last m2)
  have r3: "node_time node = flat_time p3 \<Longrightarrow>
      add_next_prev L g node [p1, p2, p3] = set_links L g [p1, p2, p3] (Suc (Suc 0)) node"
    by (simp add: add_next_prev_last m3)
  have s1: "node_next (set_links L g [p1, p2, p3] 0 node) = Some (g (node_docname node) (flat_docname p3))
      \<and> next_text (set_links L g [p1, p2, p3] 0 node) = Some (oldest_label L)
      \<and> node_prev (set_links L g [p1, p2, p3] 0 node) = Some (g (node_docname node) (flat_docname p2))
      \<and> prev_text (set_links L g [p1, p2, p3] 0 node) = Some (previous_label L)"
    by (simp add: set_links_def idx_prev_of_def idx_next_of_def)
  have s2: "node_prev (set_links L g [p1, p2, p3] (Suc 0) node) = Some (g (node_docname node) (flat_docname p3))
      \<and> prev_text (set_links L g [p1, p2, p3] (Suc 0) node) = Some (previous_label L)
      \<and> node_next (set_links L g [p1, p2, p3] (Suc 0) node) = Some (g (node_docname node) (flat_docname p1))
      \<and> next_text (set_links L g [p1, p2, p3] (Suc 0) node) = Some (next_label L)"
    by (simp add: set_links_def idx_prev_of_def idx_next_of_def)
  have s3: "node_prev (set_links L g [p1, p2, p3] (Suc (Suc 0)) node) = Some (g (node_docname node) (flat_docname p1))
      \<and> prev_text (set_links L g [p1, p2, p3] (Suc (Suc 0)) node) = Some (newest_label L)
      \<and> node_next (set_links L g [p1, p2, p3] (Suc (Suc 0)) node) = Some (g (node_docname node) (flat_docname p2))
      \<and> next_text (set_links L g [p1, p2, p3] (Suc (Suc 0)) node) = Some (next_label L)"
    by (simp add: set_links_def idx_prev_of_def idx_next_of_def)
  have c1: "node_time node = flat_time p1 \<longrightarrow>
        node_next (add_next_prev L g node [p1, p2, p3]) = Some (g (node_docname node) (flat_docname p3))
      \<and> next_text (add_next_prev L g node [p1, p2, p3]) = Some (oldest_label L)
      \<and> node_prev (add_next_prev L g node [p1, p2, p3]) = Some (g (node_docname node) (flat_docname p2))
      \<and> prev_text (add_next_prev L g node [p1, p2, p3]) = Some (previous_label L)"
  proof
    assume a: "node_time node = flat_time p1"
    show "node_next (add_next_prev L g node [p1, p2, p3]) = Some (g (node_docname node) (flat_docname p3))
      \<and> next_text (add_next_prev L g node [p1, p2, p3]) = Some (oldest_label L)
      \<and> node_prev (add_next_prev L g node [p1, p2, p3]) = Some (g (node_docname node) (flat_docname p2))
      \<and> prev_text (add_next_prev L g node [p1, p2, p3]) = Some (previous_label L)"
      unfolding r1[OF a] by (rule s1)
  qed
  have c2: "node_time node = flat_time p2 \<longrightarrow>
        node_prev (add_next_prev L g node [p1, p2, p3]) = Some (g (node_docname node) (flat_docname p3))
      \<and> prev_text (add_next_prev L g node [p1, p2, p3]) = Some (previous_label L)
      \<and> node_next (add_next_prev L g node [p1, p2, p3]) = Some (g (node_docname node) (flat_docname p1))
      \<and> next_text (add_next_prev L g node [p1, p2, p3]) = Some (next_label L)"
  proof
    assume a: "node_time node = flat_time p2"
    show "node_prev (add_next_prev L g node [p1, p2, p3]) = Some (g (node_docname node) (flat_docname p3))
      \<and> prev_text (add_next_prev L g node [p1, p2, p3]) = Some (previous_label L)
      \<and> node_next (add_next_prev L g node [p1, p2, p3]) = Some (g (node_docname node) (flat_docname p1))
      \<and> next_text (add_next_prev L g node [p1, p2, p3]) = Some (next_label L)"
      unfolding r2[OF a] by (rule s2)
  qed
  have c3: "node_time node = flat_time p3 \<longrightarrow>
        node_prev (add_next_prev L g node [p1, p2, p3]) = Some (g (node_docname node) (flat_docname p1))
      \<and> prev_text (add_next_prev L g node [p1, p2, p3]) = Some (newest_label L)
      \<and> node_next (add_next_prev L g node [p1, p2, p3]) = Some (g (node_docname node) (flat_docname p2))
      \<and> next_text (add_next_prev L g node [p1, p2, p3]) = Some (next_label L)"
  proof
    assume a: "node_time node = flat_time p3"
    show "node_prev (add_next_prev L g node [p1, p2, p3]) = Some (g (node_docname node) (flat_docname p1))
      \<and> prev_text (add_next_prev L g node [p1, p2, p3]) = Some (newest_label L)
      \<and> node_next (add_next_prev L g node [p1, p2, p3]) = Some (g (node_docname node) (flat_docname p2))
      \<and> next_text (add_next_prev L g node [p1, p2, p3]) = Some (next_label L)"
      unfolding r3[OF a] by (rule s3)
  qed
  show ?thesis using c1 c2 c3 by (intro conjI)
qed


theorem wraparound_three_posts_witness:
  "flat_time (nav3 ! 1) < flat_time (nav3 ! 0) \<and> flat_time (nav3 ! 2) < flat_time (nav3 ! 1)
   \<and> node_next (add_next_prev labels_init uri0 (flat_post_node (nav3 ! 0)) nav3) = Some ''posts/p3''
   \<and> next_text (add_next_prev labels_init uri0 (flat_post_node (nav3 ! 0)) nav3) = Some ''Oldest &orarr;''
   \<and> node_prev (add_next_prev labels_init uri0 (flat_post_node (nav3 ! 2)) nav3) = Some ''posts/p1''
   \<and> prev_text (add_next_prev labels_init uri0 (flat_post_node (nav3 ! 2)) nav3) = Some ''&olarr; Newest''
   \<and> node_prev (add_next_prev labels_init uri0 (flat_post_node (nav3 ! 1)) nav3) = Some ''posts/p3''
   \<and> prev_text (add_next_prev labels_init uri0 (flat_post_node (nav3 ! 1)) nav3) = Some ''&larr; Previous''
   \<and> node_next (add_next_prev labels_init uri0 (flat_post_node (nav3 ! 1)) nav3) = Some ''posts/p1''
   \<and> next_text (add_next_prev labels_init uri0 (flat_post_node (nav3 ! 1)) nav3) = Some ''Next &rarr;''"
proof -
  have l: "nav3 = [nav3 ! 0, nav3 ! 1, nav3 ! 2]" by (simp add: nav3_def)
  have h1: "flat_time (nav3 ! 1) < flat_time (nav3 ! 0)"
    by (simp add: nav3_def make_flat_item_def example_post_def)
  have h2: "flat_time (nav3 ! 2) < flat_time (nav3 ! 1)"
    by (simp add: nav3_def make_flat_item_def example_post_def)
  have t: "node_time (flat_post_node (nav3 ! 0)) = flat_time (nav3 ! 0)
         \<and> node_time (flat_post_node (nav3 ! 1)) = flat_time (nav3 ! 1)
         \<and> node_time (flat_post_node (nav3 ! 2)) = flat_time (nav3 ! 2)"
    by (simp add: nav3_def make_flat_item_def example_post_def example_node_def)
  have v: "flat_docname (nav3 ! 0) = ''posts/p1'' \<and> flat_docname (nav3 ! 1) = ''posts/p2''
         \<and> flat_docname (nav3 ! 2) = ''posts/p3''"
    by (simp add: nav3_def make_flat_item_def example_post_def)
  have L: "oldest_label labels_init = ''Oldest &orarr;'' \<and> newest_label labels_init = ''&olarr; Newest''
         \<and> previous_label labels_init = ''&larr; Previous'' \<and> next_label labels_init = ''Next &rarr;''"
    by (simp add: labels_init_def)
  note T = wraparound_three_posts[OF h1 h2, of _ labels_init uri0, folded l]
  from T[of "flat_post_node (nav3 ! 0)"] t v L
  have a: "node_next (add_next_prev labels_init uri0 (flat_post_node (nav3 ! 0)) nav3) = Some ''posts/p3''
   \<and> next_text (add_next_prev labels_init uri0 (flat_post_node (nav3 ! 0)) nav3) = Some ''Oldest &orarr;''"
    by (simp add: uri0_def)
  from T[of "flat_post_node (nav3 ! 2)"] t v L
  have b: "node_prev (add_next_prev labels_init uri0 (flat_post_node (nav3 ! 2)) nav3) = Some ''posts/p1''
   \<and> prev_text (add_next_prev labels_init uri0 (flat_post_node (nav3 ! 2)) nav3) = Some ''&olarr; Newest''"
    by (simp add: uri0_def)
  from T[of "flat_post_node (nav3 ! 1)"] t v L
  have c: "node_prev (add_next_prev labels_init uri0 (flat_post_node (nav3 ! 1)) nav3) = Some ''posts/p3''
   \<and> prev_text (add_next_prev labels_init uri0 (flat_post_node (nav3 ! 1)) nav3) = Some ''&larr; Previous''
   \<and> node_next (add_next_prev labels_init uri0 (flat_post_node (nav3 ! 1)) nav3) = Some ''posts/p1''
   \<and> next_text (add_next_prev labels_init uri0 (flat_post_node (nav3 ! 1)) nav3) = Some ''Next &rarr;''"
    by (simp add: uri0_def)
  show ?thesis using h1 h2 a b c by (intro conjI) simp_all
qed

theorem links_from_last_match_witness:
  "matches (post_node (posts3 ! 0)) flat3 = [1, 2]
   \<and> node_time (post_node (posts3 ! 1)) = node_time (post_node (posts3 ! 0))
   \<and> add_next_prev labels_init uri0 (post_node (posts3 ! 0)) flat3
       = set_links labels_init uri0 flat3 2 (post_node (posts3 ! 0))
   \<and> matches (post_node (posts3 ! 1)) flat3 = [1, 2]
   \<and> flat_time (flat3 ! 2) = node_time (post_node (posts3 ! 0))"
proof -
  have m: "matches (post_node (posts3 ! 0)) flat3 = [1, 2]" by code_simp
  have t: "node_time (post_node (posts3 ! 1)) = node_time (post_node (posts3 ! 0))"
    by (simp add: posts3_def example_post_def example_node_def)
  have ne: "matches (post_node (posts3 ! 0)) flat3 \<noteq> []" using m by simp
  note T = links_from_last_match[of labels_init uri0 "post_node (posts3 ! 0)" flat3
             "post_node (posts3 ! 1)"]
  from T m have a: "add_next_prev labels_init uri0 (post_node (posts3 ! 0)) flat3
       = set_links labels_init uri0 flat3 2 (post_node (posts3 ! 0))"
    by simp
  from T t m have b: "matches (post_node (posts3 ! 1)) flat3 = [1, 2]" by simp
  from T ne m have c: "flat_time (flat3 ! 2) = node_time (post_node (posts3 ! 0))" by simp
  show ?thesis using m t a b c by (intro conjI)
qed

theorem first_match_counterexample:
  "matches (post_node (posts3 ! 0)) flat3 = [1, 2]
   \<and> hd (matches (post_node (posts3 ! 0)) flat3) = 1
   \<and> map (title \<circ> flat_post_node) flat3 = [''C'', ''B'', ''A'']
   \<and> node_prev (set_links labels_init uri0 flat3 1 (post_node (posts3 ! 0))) = Some ''posts/a''
   \<and> prev_text (set_links labels_init uri0 flat3 1 (post_node (posts3 ! 0))) = Some ''&larr; Previous''
   \<and> node_next (set_links labels_init uri0 flat3 1 (post_node (posts3 ! 0))) = Some ''posts/c''
   \<and> node_prev (add_next_prev labels_init uri0 (post_node (posts3 ! 0)) flat3) = Some ''posts/c''
   \<and> prev_text (add_next_prev labels_init uri0 (post_node (posts3 ! 0)) flat3) = Some ''&olarr; Newest''
   \<and> node_next (add_next_prev labels_init uri0 (post_node (posts3 ! 0)) flat3) = Some ''posts/b''
   \<and> add_next_prev labels_init uri0 (post_node (posts3 ! 0)) flat3
       \<noteq> set_links labels_init uri0 flat3 (hd (matches (post_node (posts3 ! 0)) flat3))
            (post_node (posts3 ! 0))"
  by code_simp


section \<open>Directive errors\<close>

text \<open>
  C7: in a build in which a categories listing has been parsed (\<^verbatim>\<open>env.category_docname\<close>
  is set), parsing another one raises \<^verbatim>\<open>ValueError\<close> with the message
  \<^verbatim>\<open>Only one category list is supported!\<close> and leaves the environment as it was; the
  tags listing, the archive listing and the recent-posts directive do the same with
  their own messages (a recent-posts directive without its \<^verbatim>\<open>length\<close> option raises
  \<^verbatim>\<open>KeyError\<close> instead, also on its first occurrence). The first occurrence of each
  directive returns its node and sets the attribute, so the next occurrence raises.
\<close>

theorem second_singleton_directive_raises:
  "(category_docname e \<noteq> None \<longrightarrow>
      BlogCategoryDirective_run (Some e)
        = (Some e, Inl (ValueError ''Only one category list is supported!'')))
   \<and> (tag_docname e \<noteq> None \<longrightarrow>
      BlogTagDirective_run (Some e)
        = (Some e, Inl (ValueError ''Only one tag list is supported!'')))
   \<and> (archive_docname e \<noteq> None \<longrightarrow>
      BlogArchiveDirective_run (Some e)
        = (Some e, Inl (ValueError ''Only one archive list is supported!'')))
   \<and> (recent_docname e \<noteq> None \<longrightarrow>
      BlogRecentDirective_run (Some n) (Some e)
        = (Some e, Inl (ValueError ''Recent posts can only be inserted once!''))
      \<and> BlogRecentDirective_run None (Some e) = (Some e, Inl (KeyError ''length'')))
   \<and> (category_docname e = None \<longrightarrow>
      (\<exists>e1. BlogCategoryDirective_run (Some e) = (Some e1, Inr [Category])
         \<and> category_docname e1 = Some (env_docname e)
         \<and> BlogCategoryDirective_run (Some e1)
             = (Some e1, Inl (ValueError ''Only one category list is supported!''))))
   \<and> (tag_docname e = None \<longrightarrow>
      (\<exists>e1. BlogTagDirective_run (Some e) = (Some e1, Inr [Tag])
         \<and> tag_docname e1 = Some (env_docname e)
         \<and> BlogTagDirective_run (Some e1)
             = (Some e1, Inl (ValueError ''Only one tag list is supported!''))))
   \<and> (archive_docname e = None \<longrightarrow>
      (\<exists>e1. BlogArchiveDirective_run (Some e) = (Some e1, Inr [Archive])
         \<and> archive_docname e1 = Some (env_docname e)
         \<and> BlogArchiveDirective_run (Some e1)
             = (Some e1, Inl (ValueError ''Only one archive list is supported!''))))
   \<and> (recent_docname e = None \<longrightarrow>
      (\<exists>e1 node. BlogRecentDirective_run (Some n) (Some e) = (Some e1, Inr [Recent node])
         \<and> recent_docname e1 = Some (env_docname e)
         \<and> BlogRecentDirective_run (Some m) (Some e1)
             = (Some e1, Inl (ValueError ''Recent posts can only be inserted once!''))))"
proof (intro conjI impI)
  assume "category_docname e \<noteq> None"
  then show "BlogCategoryDirective_run (Some e)
        = (Some e, Inl (ValueError ''Only one category list is supported!''))"
    by (auto simp: BlogCategoryDirective_run_def)
next
  assume "tag_docname e \<noteq> None"
  then show "BlogTagDirective_run (Some e)
        = (Some e, Inl (ValueError ''Only one tag list is supported!''))"
    by (auto simp: BlogTagDirective_run_def)
next
  assume "archive_docname e \<noteq> None"
  then show "BlogArchiveDirective_run (Some e)
        = (Some e, Inl (ValueError ''Only one archive list is supported!''))"
    by (auto simp: BlogArchiveDirective_run_def)
next
  assume "recent_docname e \<noteq> None"
  then show "BlogRecentDirective_run (Some n) (Some e)
        = (Some e, Inl (ValueError ''Recent posts can only be inserted once!''))"
    by (auto simp: BlogRecentDirective_run_def)
next
  show "BlogRecentDirective_run None (Some e) = (Some e, Inl (KeyError ''length''))"
    by (simp add: BlogRecentDirective_run_def)
next
  assume "category_docname e = None"
  then show "\<exists>e1. BlogCategoryDirective_run (Some e) = (Some e1, Inr [Category])
         \<and> category_docname e1 = Some (env_docname e)
         \<and> BlogCategoryDirective_run (Some e1)
             = (Some e1, Inl (ValueError ''Only one category list is supported!''))"
    by (simp add: BlogCategoryDirective_run_def)
next
  assume "tag_docname e = None"
  then show "\<exists>e1. BlogTagDirective_run (Some e) = (Some e1, Inr [Tag])
         \<and> tag_docname e1 = Some (env_docname e)
         \<and> BlogTagDirective_run (Some e1)
             = (Some e1, Inl (ValueError ''Only one tag list is supported!''))"
    by (simp add: BlogTagDirective_run_def)
next
  assume "archive_docname e = None"
  then show "\<exists>e1. BlogArchiveDirective_run (Some e) = (Some e1, Inr [Archive])
         \<and> archive_docname e1 = Some (env_docname e)
         \<and> BlogArchiveDirective_run (Some e1)
             = (Some e1, Inl (ValueError ''Only one archive list is supported!''))"
    by (simp add: BlogArchiveDirective_run_def)
next
  assume "recent_docname e = None"
  then show "\<exists>e1 node. BlogRecentDirective_run (Some n) (Some e) = (Some e1, Inr [Recent node])
         \<and> recent_docname e1 = Some (env_docname e)
         \<and> BlogRecentDirective_run (Some m) (Some e1)
             = (Some e1, Inl (ValueError ''Recent posts can only be inserted once!''))"
    by (simp add: BlogRecentDirective_run_def Let_def)
qed

text \<open>
  C8: when the time option of a post directive does not parse, \<^verbatim>\<open>run\<close> raises the
  parser's error and the environment, with the store in it, is the one before the call:
  the \<^verbatim>\<open>strptime\<close> call comes before the store is touched. When the time parses and
  the build has an environment, the call returns and the store has grown by one post
  with that time.
\<close>

theorem bad_time_raises_before_store:
  "(strptime (option_value stripped options ''time'') = Inl err \<longrightarrow>
      BlogPostDirective_run strptime strftime options envo = (envo, Inl err))
   \<and> (strptime (option_value stripped options ''time'') = Inr t \<longrightarrow>
      (\<exists>e1 ns p. BlogPostDirective_run strptime strftime options (Some e) = (Some e1, Inr ns)
         \<and> all_posts e1 = Some (stored_posts e @ [p]) \<and> post_time p = t))"
proof (intro conjI impI)
  assume "strptime (option_value stripped options ''time'') = Inl err"
  then show "BlogPostDirective_run strptime strftime options envo = (envo, Inl err)"
    by (simp add: BlogPostDirective_run_def)
next
  assume "strptime (option_value stripped options ''time'') = Inr t"
  then show "\<exists>e1 ns p. BlogPostDirective_run strptime strftime options (Some e) = (Some e1, Inr ns)
         \<and> all_posts e1 = Some (stored_posts e @ [p]) \<and> post_time p = t"
    by (simp add: BlogPostDirective_run_def Let_def new_serialno_def stored_posts_def
          split: option.splits)
qed


theorem second_singleton_directive_raises_witness:
  "category_docname env_listed \<noteq> None \<and> tag_docname env_listed \<noteq> None
   \<and> archive_docname env_listed \<noteq> None \<and> recent_docname env_listed \<noteq> None
   \<and> BlogCategoryDirective_run (Some env_listed)
        = (Some env_listed, Inl (ValueError ''Only one category list is supported!''))
   \<and> BlogTagDirective_run (Some env_listed)
        = (Some env_listed, Inl (ValueError ''Only one tag list is supported!''))
   \<and> BlogArchiveDirective_run (Some env_listed)
        = (Some env_listed, Inl (ValueError ''Only one archive list is supported!''))
   \<and> BlogRecentDirective_run (Some 5) (Some env_listed)
        = (Some env_listed, Inl (ValueError ''Recent posts can only be inserted once!''))
   \<and> category_docname env0 = None \<and> tag_docname env0 = None
   \<and> archive_docname env0 = None \<and> recent_docname env0 = None
   \<and> snd (BlogCategoryDirective_run (Some env0)) = Inr [Category]
   \<and> snd (BlogCategoryDirective_run (fst (BlogCategoryDirective_run (Some env0))))
        = Inl (ValueError ''Only one category list is supported!'')
   \<and> snd (BlogTagDirective_run (fst (BlogTagDirective_run (Some env0))))
        = Inl (ValueError ''Only one tag list is supported!'')
   \<and> snd (BlogArchiveDirective_run (fst (BlogArchiveDirective_run (Some env0))))
        = Inl (ValueError ''Only one archive list is supported!'')
   \<and> snd (BlogRecentDirective_run (Some 5) (fst (BlogRecentDirective_run (Some 5) (Some env0))))
        = Inl (ValueError ''Recent posts can only be inserted once!'')"
proof -
  have s: "category_docname env_listed \<noteq> None \<and> tag_docname env_listed \<noteq> None
   \<and> archive_docname env_listed \<noteq> None \<and> recent_docname env_listed \<noteq> None"
    by (simp add: env_listed_def)
  have n: "category_docname env0 = None \<and> tag_docname env0 = None
   \<and> archive_docname env0 = None \<and> recent_docname env0 = None"
    by (simp add: env0_def)
  note A = second_singleton_directive_raises[of env_listed 5 5]
  note B = second_singleton_directive_raises[of env0 5 5]
  from A s have a1: "BlogCategoryDirective_run (Some env_listed)
        = (Some env_listed, Inl (ValueError ''Only one category list is supported!''))"
    by blast
  from A s have a2: "BlogTagDirective_run (Some env_listed)
        = (Some env_listed, Inl (ValueError ''Only one tag list is supported!''))"
    by blast
  from A s have a3: "BlogArchiveDirective_run (Some env_listed)
        = (Some env_listed, Inl (ValueError ''Only one archive list is supported!''))"
    by blast
  from A s have a4: "BlogRecentDirective_run (Some 5) (Some env_listed)
        = (Some env_listed, Inl (ValueError ''Recent posts can only be inserted once!''))"
    by blast
  have n1: "category_docname env0 = None" and n2: "tag_docname env0 = None"
    and n3: "archive_docname env0 = None" and n4: "recent_docname env0 = None"
    using n by simp_all
  note B4 = B[THEN conjunct2, THEN conjunct2, THEN conjunct2, THEN conjunct2]
  note c1 = B4[THEN conjunct1, THEN mp, OF n1]
  note c2 = B4[THEN conjunct2, THEN conjunct1, THEN mp, OF n2]
  note c3 = B4[THEN conjunct2, THEN conjunct2, THEN conjunct1, THEN mp, OF n3]
  note c4 = B4[THEN conjunct2, THEN conjunct2, THEN conjunct2, THEN mp, OF n4]
  from c1 obtain e1 where b1: "BlogCategoryDirective_run (Some env0) = (Some e1, Inr [Category])"
    "BlogCategoryDirective_run (Some e1)
             = (Some e1, Inl (ValueError ''Only one category list is supported!''))"
    by (elim exE conjE)
  from c2 obtain e2 where b2: "BlogTagDirective_run (Some env0) = (Some e2, Inr [Tag])"
    "BlogTagDirective_run (Some e2)
             = (Some e2, Inl (ValueError ''Only one tag list is supported!''))"
    by (elim exE conjE)
  from c3 obtain e3 where b3: "BlogArchiveDirective_run (Some env0) = (Some e3, Inr [Archive])"
    "BlogArchiveDirective_run (Some e3)
             = (Some e3, Inl (ValueError ''Only one archive list is supported!''))"
    by (elim exE conjE)
  from c4 obtain e4 node where b4:
    "BlogRecentDirective_run (Some 5) (Some env0) = (Some e4, Inr [Recent node])"
    "BlogRecentDirective_run (Some 5) (Some e4)
             = (Some e4, Inl (ValueError ''Recent posts can only be inserted once!''))"
    by (elim exE conjE)
  show ?thesis using s n a1 a2 a3 a4 b1 b2 b3 b4 by simp
qed

theorem bad_time_raises_before_store_witness:
  "strptime_fixed (option_value stripped bad_time_options ''time'')
     = Inl (ValueError ''time data does not match format'')
   \<and> BlogPostDirective_run strptime_fixed strftime_short bad_time_options (Some store3)
     = (Some store3, Inl (ValueError ''time data does not match format''))
   \<and> all_posts store3 = Some posts3
   \<and> strptime_fixed (option_value stripped good_time_options ''time'') = Inr (2019, 3, 6, 9, 0, 0)
   \<and> map_option length
        (all_posts (the (fst (BlogPostDirective_run strptime_fixed strftime_short
                                good_time_options (Some store3))))) = Some 4"
proof -
  have b: "strptime_fixed (option_value stripped bad_time_options ''time'')
     = Inl (ValueError ''time data does not match format'')"
    by code_simp
  have g: "strptime_fixed (option_value stripped good_time_options ''time'')
     = Inr (2019, 3, 6, 9, 0, 0)"
    by code_simp
  have st: "all_posts store3 = Some posts3" by (simp add: store3_def)
  have sp: "stored_posts store3 = posts3" by (simp add: stored_posts_def st)
  have l: "length posts3 = 3" by (simp add: posts3_def)
  from bad_time_raises_before_store[of strptime_fixed bad_time_options _ strftime_short
         "Some store3"] b
  have r1: "BlogPostDirective_run strptime_fixed strftime_short bad_time_options (Some store3)
     = (Some store3, Inl (ValueError ''time data does not match format''))"
    by blast
  from bad_time_raises_before_store[of strptime_fixed good_time_options _ strftime_short
         _ "(2019, 3, 6, 9, 0, 0)" store3] g
  obtain e1 ns p where
    r2: "BlogPostDirective_run strptime_fixed strftime_short good_time_options (Some store3)
           = (Some e1, Inr ns)"
    and a: "all_posts e1 = Some (stored_posts store3 @ [p])"
    by blast
  have r3: "map_option length
        (all_posts (the (fst (BlogPostDirective_run strptime_fixed strftime_short
                                good_time_options (Some store3))))) = Some 4"
    using r2 a sp l by simp
  show ?thesis using b r1 st g r3 by (intro conjI)
qed

lemma directive_stores_example_post:
  "map_option (map (\<lambda>p. p\<lparr>targetnode := (targetnode p)\<lparr>refid := Some (post_targetid p)\<rparr>\<rparr>))
     (all_posts (the (fst (BlogPostDirective_run strptime_fixed strftime_short
        (post_options ''B'' ''b'' ''x, y'' ''01.02.2018, 10:00:00'')
        (Some (env0\<lparr>env_docname := ''posts/b''\<rparr>))))))
   = Some [posts3 ! 0]"
  by code_simp

end
